theory Spec2Isabelle
  imports Main "HOL-Library.Word"
begin

section \<open>JavaScript values and exceptions\<close>

text \<open>
  The code is JavaScript: every argument is dynamically typed and the code checks the
  kind of a value at run time (\<^verbatim>\<open>Array.isArray\<close>, \<^verbatim>\<open>isArrayBuffer\<close>).
  The values that reach these checks are modelled by a datatype.
  An \<^verbatim>\<open>ArrayBuffer\<close> is a sequence of bytes; a plain \<^verbatim>\<open>Array\<close> holds numbers
  (key material in the elliptic-curve library); \<open>JBuffer\<close> is a Node \<^verbatim>\<open>Buffer\<close>;
  \<open>JObject\<close> stands for any other object.
\<close>

type_synonym byte = "8 word"
type_synonym buf = "byte list"

datatype jsval =
    JUndefined
  | JNull
  | JBool bool
  | JNum int
  | JStr string
  | JArray "int list"
  | JArrayBuffer buf
  | JBuffer buf
  | JObject

text \<open>
  A thrown exception is a value: \<^verbatim>\<open>new Error(msg)\<close> is \<open>Error msg\<close>; calling a
  property that is not a function is a \<^verbatim>\<open>TypeError\<close>; evaluating an identifier that is
  bound nowhere is a \<^verbatim>\<open>ReferenceError\<close>. The argument of the latter two names the
  property or identifier.
\<close>

datatype error = Error string | TypeError string | ReferenceError string

text \<open>\<^verbatim>\<open>if (v)\<close>: JavaScript's conversion to a boolean.\<close>

fun truthy :: "jsval \<Rightarrow> bool" where
  "truthy JUndefined = False"
| "truthy JNull = False"
| "truthy (JBool b) = b"
| "truthy (JNum n) = (n \<noteq> 0)"
| "truthy (JStr s) = (s \<noteq> [])"
| "truthy _ = True"

fun isArray :: "jsval \<Rightarrow> bool" where
  "isArray (JArray xs) = True"
| "isArray _ = False"

fun isArrayBuffer :: "jsval \<Rightarrow> bool" where
  "isArrayBuffer (JArrayBuffer b) = True"
| "isArrayBuffer _ = False"

text \<open>
  Property reads. An \<^verbatim>\<open>ArrayBuffer\<close> has \<^verbatim>\<open>byteLength\<close> and no \<^verbatim>\<open>length\<close>:
  reading \<^verbatim>\<open>length\<close> from it gives \<^verbatim>\<open>undefined\<close>. Arrays, strings and Node
  buffers have \<^verbatim>\<open>length\<close>. The code reads these properties from objects only.
\<close>

fun prop_byteLength :: "jsval \<Rightarrow> jsval" where
  "prop_byteLength (JArrayBuffer b) = JNum (int (length b))"
| "prop_byteLength _ = JUndefined"

fun prop_length :: "jsval \<Rightarrow> jsval" where
  "prop_length (JArray xs) = JNum (int (length xs))"
| "prop_length (JStr s) = JNum (int (length s))"
| "prop_length (JBuffer b) = JNum (int (length b))"
| "prop_length _ = JUndefined"

text \<open>
  \<^verbatim>\<open>a > b\<close>, \<^verbatim>\<open>a >= b\<close> and \<^verbatim>\<open>a <= b\<close> where each operand is a number or \<^verbatim>\<open>undefined\<close>:
  \<^verbatim>\<open>undefined\<close> converts to NaN, and every comparison with NaN is false.
\<close>

fun js_gt :: "jsval \<Rightarrow> jsval \<Rightarrow> bool" where
  "js_gt (JNum a) (JNum b) = (a > b)"
| "js_gt _ _ = False"

fun js_ge :: "jsval \<Rightarrow> jsval \<Rightarrow> bool" where
  "js_ge (JNum a) (JNum b) = (a \<ge> b)"
| "js_ge _ _ = False"

fun js_le :: "jsval \<Rightarrow> jsval \<Rightarrow> bool" where
  "js_le (JNum a) (JNum b) = (a \<le> b)"
| "js_le _ _ = False"

text \<open>
  \<^verbatim>\<open>null != v\<close> (loose inequality): false exactly for \<^verbatim>\<open>null\<close> and
  \<^verbatim>\<open>undefined\<close>.
\<close>

fun js_neq_null :: "jsval \<Rightarrow> bool" where
  "js_neq_null JNull = False"
| "js_neq_null JUndefined = False"
| "js_neq_null _ = True"

text \<open>
  \<^verbatim>\<open>buf.slice(a, b)\<close> and \<^verbatim>\<open>buf.slice(a)\<close> on an \<^verbatim>\<open>ArrayBuffer\<close>, for
  non-negative indices: both ends are clamped to the length of the buffer and the result
  is a new \<^verbatim>\<open>ArrayBuffer\<close>.
\<close>

definition slice2 :: "buf \<Rightarrow> nat \<Rightarrow> nat \<Rightarrow> buf" where
  "slice2 b from to = take (to - from) (drop from b)"

definition slice1 :: "buf \<Rightarrow> nat \<Rightarrow> buf" where
  "slice1 b from = drop from b"

text \<open>
  \<^verbatim>\<open>new Uint16Array(lenBuf)[0]\<close> on a two-byte \<^verbatim>\<open>ArrayBuffer\<close>: a view in the
  platform's byte order, little-endian here. \<^verbatim>\<open>lenBuf[0] = n\<close> stores \<open>n\<close> modulo
  \<open>2 ^ 16\<close> the same way.
\<close>

fun uint16_read :: "buf \<Rightarrow> nat" where
  "uint16_read (lo # hi # _) = unat lo + 256 * unat hi"
| "uint16_read _ = 0"

definition uint16_buffer :: "nat \<Rightarrow> buf" where
  "uint16_buffer n = [of_nat (n mod 256), of_nat ((n div 256) mod 256)]"

text \<open>The number stored by \<^verbatim>\<open>lenBuf[0] = v\<close>: a value that is not a number stores 0.\<close>

fun to_uint16 :: "jsval \<Rightarrow> nat" where
  "to_uint16 (JNum n) = nat (n mod 65536)"
| "to_uint16 _ = 0"

section \<open>The elliptic-curve primitive (ec.js)\<close>

text \<open>
  The curve arithmetic (\<^verbatim>\<open>ecparams\<close>, \<^verbatim>\<open>ecdsa\<close>, \<^verbatim>\<open>ecurve\<close>, \<^verbatim>\<open>bigi\<close>),
  the hash, the random source and the buffer utilities are libraries that \<^verbatim>\<open>ec.js\<close>
  calls. They are parameters of the model; each may throw.
\<close>

record ec_lib =
  ecparams :: "string \<Rightarrow> bool"
  fromByteArrayUnsigned :: "int list \<Rightarrow> int"
  publicOfPrivate :: "string \<Rightarrow> int \<Rightarrow> int list"
  ecdsa_verify :: "string \<Rightarrow> jsval \<Rightarrow> int list \<Rightarrow> jsval \<Rightarrow> error + jsval"
  sharedSecret :: "string \<Rightarrow> int list \<Rightarrow> int option \<Rightarrow> error + jsval"
  pbkdf2 :: "jsval \<Rightarrow> jsval \<Rightarrow> nat \<Rightarrow> jsval \<Rightarrow> error + jsval"
  buffer_xor :: "jsval \<Rightarrow> jsval \<Rightarrow> error + jsval"
  buffer_concat :: "jsval list \<Rightarrow> error + jsval"
  ec_srand_bytes :: "nat \<Rightarrow> jsval"

text \<open>
  An \<^verbatim>\<open>EC\<close> instance: the two key variables of the closure and the set of methods
  the object currently has. \<^verbatim>\<open>self.m = f\<close> inserts \<open>m\<close>, \<^verbatim>\<open>delete self.m\<close>
  removes it, and calling a method that is not there throws a \<^verbatim>\<open>TypeError\<close>.
\<close>

record ec =
  curveName :: string
  bigiPrivateKey :: "int option"
  bigiPublicKey :: jsval
  ec_methods :: "string set"

definition new_EC :: "ec_lib \<Rightarrow> string \<Rightarrow> error + ec" where
  "new_EC L name =
     (if \<not> ecparams L name then Inl (Error ''unknown-ec-curve-name'')
      else Inr \<lparr>curveName = name, bigiPrivateKey = None, bigiPublicKey = JNull,
                ec_methods = {''setPrivateKey'', ''setPublicKey''}\<rparr>)"

definition init :: "ec \<Rightarrow> bool \<Rightarrow> ec" where
  "init self prv =
     self\<lparr>ec_methods :=
       ((if prv then {''sign'', ''getDecryptCredential'', ''_computeSecret''} else {})
        \<union> {''verify'', ''getEncryptCredentials'', ''getPublicKey''} \<union> ec_methods self)
        - {''setPrivateKey'', ''setPublicKey''}\<rparr>"

definition initWithPublicKey :: "ec \<Rightarrow> jsval \<Rightarrow> ec" where
  "initWithPublicKey self publicKeyArray =
     init (self\<lparr>bigiPrivateKey := None, bigiPublicKey := publicKeyArray\<rparr>) False"

definition initWithPrivateKey :: "ec_lib \<Rightarrow> ec \<Rightarrow> int list \<Rightarrow> ec" where
  "initWithPrivateKey L self privateKeyArray =
     (let d = fromByteArrayUnsigned L privateKeyArray
      in init (self\<lparr>bigiPrivateKey := Some d,
                     bigiPublicKey := JArray (publicOfPrivate L (curveName self) d)\<rparr>) True)"

definition setPrivateKey :: "ec_lib \<Rightarrow> ec \<Rightarrow> jsval \<Rightarrow> error + ec" where
  "setPrivateKey L self privateKeyArray =
     (if ''setPrivateKey'' \<notin> ec_methods self then Inl (TypeError ''setPrivateKey'')
      else case privateKeyArray of
        JArray xs \<Rightarrow> Inr (initWithPrivateKey L self xs)
      | _ \<Rightarrow> Inl (Error ''invalid-parameter''))"

definition setPublicKey :: "ec \<Rightarrow> jsval \<Rightarrow> error + ec" where
  "setPublicKey self publicKeyArray =
     (if ''setPublicKey'' \<notin> ec_methods self then Inl (TypeError ''setPublicKey'')
      else if \<not> isArray publicKeyArray then Inl (Error ''invalid-parameter'')
      else Inr (initWithPublicKey self publicKeyArray))"

text \<open>
  Two identifiers that \<^verbatim>\<open>ec.js\<close> uses are bound nowhere: \<^verbatim>\<open>$\<close>, in
  \<^verbatim>\<open>$.tools.type.isBuffer(v)\<close>, and \<^verbatim>\<open>buffer2array\<close>. The file is a closure
  over \<^verbatim>\<open>root\<close> and the four curve libraries only, and evaluating an unbound
  identifier throws a \<^verbatim>\<open>ReferenceError\<close>.
\<close>

definition dollar_isBuffer :: "jsval \<Rightarrow> error + bool" where
  "dollar_isBuffer v = Inl (ReferenceError ''$'')"

definition buffer2array :: "jsval \<Rightarrow> error + int list" where
  "buffer2array v = Inl (ReferenceError ''buffer2array'')"

text \<open>
  \<^verbatim>\<open>verify\<close>: the type check (the two tests joined by \<^verbatim>\<open>&&\<close>, the second
  evaluated only when the first is true) stands before the \<^verbatim>\<open>try\<close>, so what it
  throws leaves the function; everything thrown inside the \<^verbatim>\<open>try\<close> is caught and
  becomes \<^verbatim>\<open>false\<close> (the \<^verbatim>\<open>console.log\<close> of the handler is not modelled).
\<close>

definition ec_verify :: "ec_lib \<Rightarrow> ec \<Rightarrow> jsval \<Rightarrow> jsval \<Rightarrow> error + jsval" where
  "ec_verify L self digestBuffer signatureBuffer =
     (case dollar_isBuffer digestBuffer of
        Inl e \<Rightarrow> Inl e
      | Inr d \<Rightarrow>
          (case (if d then dollar_isBuffer signatureBuffer else Inr False) of
             Inl e \<Rightarrow> Inl e
           | Inr both \<Rightarrow>
               if \<not> both then Inl (Error ''invalid-parameter'')
               else
                 (case buffer2array signatureBuffer of
                    Inl e \<Rightarrow> Inr (JBool False)
                  | Inr signatureArray \<Rightarrow>
                      (case ecdsa_verify L (curveName self) digestBuffer signatureArray
                              (bigiPublicKey self) of
                         Inl e \<Rightarrow> Inr (JBool False)
                       | Inr ret \<Rightarrow> Inr ret))))"

definition call_ec_verify :: "ec_lib \<Rightarrow> ec \<Rightarrow> jsval \<Rightarrow> jsval \<Rightarrow> error + jsval" where
  "call_ec_verify L self digestBuffer signatureBuffer =
     (if ''verify'' \<in> ec_methods self then ec_verify L self digestBuffer signatureBuffer
      else Inl (TypeError ''verify''))"

definition computeSecret :: "ec_lib \<Rightarrow> ec \<Rightarrow> jsval \<Rightarrow> error + jsval" where
  "computeSecret L self anotherPublicKeyArray =
     (case anotherPublicKeyArray of
        JArray q \<Rightarrow> sharedSecret L (curveName self) q (bigiPrivateKey self)
      | _ \<Rightarrow> Inl (Error ''invalid-parameter''))"

definition XOR_stream :: "ec_lib \<Rightarrow> jsval \<Rightarrow> jsval \<Rightarrow> jsval \<Rightarrow> error + jsval" where
  "XOR_stream L sharedsecret salt dataBuf =
     (case pbkdf2 L sharedsecret salt 1024 (prop_length dataBuf) of
        Inl e \<Rightarrow> Inl e
      | Inr cryptStream \<Rightarrow> buffer_xor L dataBuf cryptStream)"

definition getEncryptCredentials :: "ec_lib \<Rightarrow> ec \<Rightarrow> jsval \<Rightarrow> error + jsval" where
  "getEncryptCredentials L self dataBuf =
     (if \<not> isArrayBuffer dataBuf then Inl (Error ''invalid-parameter'')
      else case new_EC L (curveName self) of
        Inl e \<Rightarrow> Inl e
      | Inr tempEC0 \<Rightarrow>
          (case setPrivateKey L tempEC0 (ec_srand_bytes L 128) of
             Inl e \<Rightarrow> Inl e
           | Inr tempEC \<Rightarrow>
               (case computeSecret L tempEC (bigiPublicKey self) of
                  Inl e \<Rightarrow> Inl e
                | Inr sharedsecret \<Rightarrow>
                    (let tempPublicKey = bigiPublicKey tempEC
                     in case XOR_stream L sharedsecret tempPublicKey dataBuf of
                          Inl e \<Rightarrow> Inl e
                        | Inr resultStream \<Rightarrow>
                            buffer_concat L
                              [JArrayBuffer (uint16_buffer (to_uint16 (prop_length tempPublicKey))),
                               tempPublicKey, resultStream]))))"

text \<open>
  \<^verbatim>\<open>getDecryptCredential\<close>. After the entry check \<^verbatim>\<open>dataBuf\<close> is an
  \<^verbatim>\<open>ArrayBuffer\<close>, and so are its slices. The length check reads \<^verbatim>\<open>length\<close> from
  the sliced \<^verbatim>\<open>ArrayBuffer\<close>, and \<^verbatim>\<open>_computeSecret\<close> receives the slice.
\<close>

definition getDecryptCredential :: "ec_lib \<Rightarrow> ec \<Rightarrow> jsval \<Rightarrow> error + jsval" where
  "getDecryptCredential L self dataBuf0 =
     (case dataBuf0 of
        JArrayBuffer b0 \<Rightarrow>
          (if \<not> js_gt (prop_byteLength dataBuf0) (JNum 2)
           then Inl (Error ''invalid-parameter'')
           else
             (let lenBuf = slice2 b0 0 2;
                  dataBuf = slice1 b0 2;
                  splitLen = uint16_read lenBuf
              in if js_le (prop_length (JArrayBuffer dataBuf)) (JNum (int splitLen))
                 then Inl (Error ''invalid-ciphertext'')
                 else
                   (let tempPublicKey = JArrayBuffer (slice2 dataBuf 0 splitLen);
                        resultStream = JArrayBuffer (slice1 dataBuf splitLen)
                    in case computeSecret L self tempPublicKey of
                         Inl e \<Rightarrow> Inl e
                       | Inr sharedsecret \<Rightarrow>
                           XOR_stream L sharedsecret tempPublicKey resultStream)))
      | _ \<Rightarrow> Inl (Error ''invalid-parameter''))"

definition call_getEncryptCredentials :: "ec_lib \<Rightarrow> ec \<Rightarrow> jsval \<Rightarrow> error + jsval" where
  "call_getEncryptCredentials L self dataBuf =
     (if ''getEncryptCredentials'' \<in> ec_methods self then getEncryptCredentials L self dataBuf
      else Inl (TypeError ''getEncryptCredentials''))"

definition call_getDecryptCredential :: "ec_lib \<Rightarrow> ec \<Rightarrow> jsval \<Rightarrow> error + jsval" where
  "call_getDecryptCredential L self dataBuf =
     (if ''getDecryptCredential'' \<in> ec_methods self then getDecryptCredential L self dataBuf
      else Inl (TypeError ''getDecryptCredential''))"

section \<open>The registry of building blocks (\<^verbatim>\<open>tool.get\<close>)\<close>

text \<open>
  \<^verbatim>\<open>identity.js\<close> and \<^verbatim>\<open>message.js\<close> fetch the serializer, the hash, the
  symmetric and asymmetric ciphers, the compressor and the random source from a registry.
  These are parameters of the model. The records below are the objects that the three
  serializer templates of the source describe, as \<^verbatim>\<open>deserialize\<close> returns them: a
  binary field is a byte sequence. \<open>payload_serialize\<close> takes the three fields of the
  object that \<^verbatim>\<open>done\<close> passes, the content as the variable holds it.
\<close>

record identity_record =
  r_subject :: buf
  r_algorithm :: string
  r_public :: buf
  r_secret :: buf
  r_signature :: buf

datatype compression = CompFalse | CompLzw

record payload_record =
  p_signers :: "buf list"
  p_signatures :: "buf list"
  p_content :: buf

record envelope_record =
  e_compression :: compression
  e_receivers :: "buf list"
  e_decryptors :: "buf list"
  e_payload :: buf

record algorithm =
  alg_name :: string
  secretLength :: nat

text \<open>
  Modelled from the spec: the asymmetric cipher object that
  \<^verbatim>\<open>tool.get('cipher.asymmetric')(name)\<close> returns is not among the sources. It holds
  exactly one of: no key, a public key, or a private key with the public key derived
  from it; \<open>cipher\<close> is that state once a key is set.
\<close>

record cipher =
  c_alg :: string
  c_public :: buf
  c_secret :: "buf option"

text \<open>
  The \<open>nat\<close> argument of \<open>asym_sign\<close> and \<open>asym_encrypt\<close> is the entropy that a
  randomised signature or encryption draws; the key of the symmetric cipher and the data
  it encrypts are passed as the code passes them, unchecked.
\<close>

record lib =
  identity_serialize :: "identity_record \<Rightarrow> error + buf"
  identity_deserialize :: "buf \<Rightarrow> error + identity_record"
  payload_serialize :: "buf list \<Rightarrow> buf list \<Rightarrow> jsval \<Rightarrow> error + buf"
  payload_deserialize :: "buf \<Rightarrow> error + payload_record"
  envelope_serialize :: "envelope_record \<Rightarrow> error + buf"
  envelope_deserialize :: "buf \<Rightarrow> error + envelope_record"
  encode_ascii :: "string \<Rightarrow> buf"
  decode_ascii :: "buf \<Rightarrow> string"
  encode_string :: "string \<Rightarrow> buf"
  mac :: "buf \<Rightarrow> buf \<Rightarrow> buf"
  hash_n :: "nat \<Rightarrow> buf \<Rightarrow> buf"
  getDef :: "string \<Rightarrow> algorithm option"
  asym_publicOfSecret :: "string \<Rightarrow> buf \<Rightarrow> error + buf"
  asym_rejectsPublic :: "string \<Rightarrow> buf \<Rightarrow> error option"
  asym_sign :: "cipher \<Rightarrow> nat \<Rightarrow> buf \<Rightarrow> error + buf"
  asym_verify :: "cipher \<Rightarrow> buf \<Rightarrow> buf \<Rightarrow> error + jsval"
  asym_encrypt :: "cipher \<Rightarrow> nat \<Rightarrow> buf \<Rightarrow> error + buf"
  asym_decrypt :: "cipher \<Rightarrow> buf \<Rightarrow> error + buf"
  sym_encrypt :: "jsval \<Rightarrow> jsval \<Rightarrow> error + buf"
  sym_decrypt :: "jsval \<Rightarrow> buf \<Rightarrow> error + buf"
  compress :: "buf \<Rightarrow> error + buf"
  decompress :: "buf \<Rightarrow> error + buf"
  srand_bytes :: "nat \<Rightarrow> buf"

text \<open>
  Modelled from the spec: \<^verbatim>\<open>setPrivateKey\<close> and \<^verbatim>\<open>setPublicKey\<close> of the
  asymmetric cipher object, which is not among the sources. Setting a private key derives
  the public key; either call may throw.
\<close>

definition asym_setPrivateKey :: "lib \<Rightarrow> string \<Rightarrow> buf \<Rightarrow> error + cipher" where
  "asym_setPrivateKey L name secret =
     (case asym_publicOfSecret L name secret of
        Inl e \<Rightarrow> Inl e
      | Inr pub \<Rightarrow> Inr \<lparr>c_alg = name, c_public = pub, c_secret = Some secret\<rparr>)"

definition asym_setPublicKey :: "lib \<Rightarrow> string \<Rightarrow> buf \<Rightarrow> error + cipher" where
  "asym_setPublicKey L name pub =
     (case asym_rejectsPublic L name pub of
        Some e \<Rightarrow> Inl e
      | None \<Rightarrow> Inr \<lparr>c_alg = name, c_public = pub, c_secret = None\<rparr>)"

section \<open>Identities (identity.js)\<close>

text \<open>
  \<^verbatim>\<open>config.subjectRule\<close> is \<^verbatim>\<open>/^[0-9a-z\-_\s]{8,255}$/i\<close>. On a string of
  8-bit characters \<^verbatim>\<open>\s\<close> matches the codes 9 to 13, 32 and 160.
\<close>

definition subjectChar :: "char \<Rightarrow> bool" where
  "subjectChar c =
     (let n = (of_char c :: nat)
      in (48 \<le> n \<and> n \<le> 57) \<or> (97 \<le> n \<and> n \<le> 122) \<or> (65 \<le> n \<and> n \<le> 90)
         \<or> n = 45 \<or> n = 95 \<or> (9 \<le> n \<and> n \<le> 13) \<or> n = 32 \<or> n = 160)"

definition subjectRule :: "string \<Rightarrow> bool" where
  "subjectRule s = (8 \<le> length s \<and> length s \<le> 255 \<and> list_all subjectChar s)"

definition defaultAlgorithmName :: string where
  "defaultAlgorithmName = ''NECRAC128''"

text \<open>
  The variables of the closure of an identity, after one of \<^verbatim>\<open>generate\<close>,
  \<^verbatim>\<open>loadPublic\<close> and \<^verbatim>\<open>loadPrivate\<close> has run. \<open>prv\<close> is the argument that
  \<^verbatim>\<open>initialize\<close> received: \<^verbatim>\<open>isPrivate()\<close> returns it, and \<^verbatim>\<open>sign\<close>,
  \<^verbatim>\<open>decrypt\<close> and \<^verbatim>\<open>exportPrivate\<close> exist exactly when it is true.
  \<open>secretBuf = None\<close> is the variable left \<^verbatim>\<open>undefined\<close>.
\<close>

record identity =
  subjectBuf :: buf
  secretBuf :: "buf option"
  publicKeyBuf :: buf
  algorithmName :: string
  signatureBuf :: buf
  asymCipher :: cipher
  prv :: bool

record options =
  opt_algorithm :: "string option"
  opt_overrideSecret :: "string option"

text \<open>\<^verbatim>\<open>getID\<close> (memoised in the source; the value is the same at every call).\<close>

definition getID :: "lib \<Rightarrow> buf \<Rightarrow> buf \<Rightarrow> buf" where
  "getID L publicKey subject = mac L publicKey subject"

definition isPrivate :: "identity \<Rightarrow> bool" where
  "isPrivate self = prv self"

definition getFingerprint :: "lib \<Rightarrow> identity \<Rightarrow> buf" where
  "getFingerprint L self = slice2 (getID L (publicKeyBuf self) (subjectBuf self)) 0 10"

text \<open>\<^verbatim>\<open>a || b\<close> on an optional string: \<^verbatim>\<open>undefined\<close> and the empty string are falsy.\<close>

fun str_truthy :: "string option \<Rightarrow> bool" where
  "str_truthy None = False"
| "str_truthy (Some s) = (s \<noteq> [])"

text \<open>\<^verbatim>\<open>initialize(prv)\<close> installs the methods; the model records its argument.\<close>

definition initialize :: "identity \<Rightarrow> bool \<Rightarrow> identity" where
  "initialize self p = self\<lparr>prv := p\<rparr>"

text \<open>
  \<^verbatim>\<open>generate\<close>. When \<^verbatim>\<open>getDef\<close> does not know the algorithm, the fallback
  branch evaluates \<^verbatim>\<open>defaults.algorithmName\<close>; no \<^verbatim>\<open>defaults\<close> is bound in
  the file (the configuration object is \<^verbatim>\<open>config\<close>), so the branch throws a
  \<^verbatim>\<open>ReferenceError\<close>. The \<open>nat\<close> is the entropy of the self-signature.
\<close>

definition generate :: "lib \<Rightarrow> string \<Rightarrow> options \<Rightarrow> nat \<Rightarrow> error + identity" where
  "generate L subject opts seed =
     (if \<not> subjectRule subject then Inl (Error ''enigma-invalid-input'')
      else
        (let subjectB = encode_ascii L subject;
             algName = (case opt_algorithm opts of
                          Some a \<Rightarrow> if a \<noteq> [] then a else defaultAlgorithmName
                        | None \<Rightarrow> defaultAlgorithmName)
         in case getDef L algName of
              None \<Rightarrow> Inl (ReferenceError ''defaults'')
            | Some alg \<Rightarrow>
                (let secretB =
                       (case opt_overrideSecret opts of
                          Some s \<Rightarrow>
                            if s \<noteq> [] then hash_n L (secretLength alg) (encode_string L s)
                            else srand_bytes L (secretLength alg)
                        | None \<Rightarrow> srand_bytes L (secretLength alg))
                 in case asym_setPrivateKey L (alg_name alg) secretB of
                      Inl e \<Rightarrow> Inl e
                    | Inr ciph \<Rightarrow>
                        (let publicB = c_public ciph
                         in case asym_sign L ciph seed (getID L publicB subjectB) of
                              Inl e \<Rightarrow> Inl e
                            | Inr sig \<Rightarrow>
                                Inr (initialize
                                       \<lparr>subjectBuf = subjectB, secretBuf = Some secretB,
                                        publicKeyBuf = publicB, algorithmName = algName,
                                        signatureBuf = sig, asymCipher = ciph,
                                        prv = False\<rparr> True)))))"

text \<open>
  \<^verbatim>\<open>loadIdentityBuf\<close> sets the variables of the closure and returns; its caller then
  runs \<^verbatim>\<open>initialize\<close>. \<^verbatim>\<open>util.buffer.equal\<close> is equality of the two byte
  sequences.
\<close>

definition loadIdentityBuf :: "lib \<Rightarrow> jsval \<Rightarrow> jsval \<Rightarrow> error + identity" where
  "loadIdentityBuf L bufv pinkeyBuf =
     (case bufv of
        JArrayBuffer b \<Rightarrow>
          (if truthy pinkeyBuf \<and> \<not> isArrayBuffer pinkeyBuf
           then Inl (Error ''enigma-invalid-input'')
           else case identity_deserialize L b of
             Inl e \<Rightarrow> Inl (Error ''enigma-invalid-input'')
           | Inr d \<Rightarrow>
               (if \<not> subjectRule (decode_ascii L (r_subject d))
                then Inl (Error ''enigma-invalid-input'')
                else
                  (case
                     (if truthy pinkeyBuf then
                        (case sym_decrypt L pinkeyBuf (r_secret d) of
                           Inl e \<Rightarrow> Inl (Error ''enigma-invalid-pinkey'')
                         | Inr secretB \<Rightarrow>
                             (case asym_setPrivateKey L (r_algorithm d) secretB of
                                Inl e \<Rightarrow> Inl e
                              | Inr ciph \<Rightarrow>
                                  if c_public ciph \<noteq> r_public d
                                  then Inl (Error ''enigma-identity-inconsistent'')
                                  else Inr (ciph, Some secretB)))
                      else
                        (case asym_setPublicKey L (r_algorithm d) (r_public d) of
                           Inl e \<Rightarrow> Inl e
                         | Inr ciph \<Rightarrow> Inr (ciph, None)))
                   of
                     Inl e \<Rightarrow> Inl e
                   | Inr (ciph, sec) \<Rightarrow>
                       (case asym_verify L ciph (getID L (r_public d) (r_subject d))
                               (r_signature d) of
                          Inl e \<Rightarrow> Inl (Error ''enigma-identity-bad-self-signature'')
                        | Inr selfSigVerify \<Rightarrow>
                            if \<not> truthy selfSigVerify
                            then Inl (Error ''enigma-identity-bad-self-signature'')
                            else Inr \<lparr>subjectBuf = r_subject d, secretBuf = sec,
                                      publicKeyBuf = r_public d,
                                      algorithmName = r_algorithm d,
                                      signatureBuf = r_signature d, asymCipher = ciph,
                                      prv = False\<rparr>))))
      | _ \<Rightarrow> Inl (Error ''enigma-invalid-input''))"

definition loadPublic :: "lib \<Rightarrow> jsval \<Rightarrow> error + identity" where
  "loadPublic L publicIdentityBuf =
     (case loadIdentityBuf L publicIdentityBuf JUndefined of
        Inl e \<Rightarrow> Inl e
      | Inr self \<Rightarrow> Inr (initialize self False))"

definition loadPrivate :: "lib \<Rightarrow> jsval \<Rightarrow> jsval \<Rightarrow> error + identity" where
  "loadPrivate L secretIdentityBuf pinkeyBuf =
     (case loadIdentityBuf L secretIdentityBuf pinkeyBuf of
        Inl e \<Rightarrow> Inl e
      | Inr self \<Rightarrow> Inr (initialize self True))"

definition canLoadPrivate :: "lib \<Rightarrow> jsval \<Rightarrow> error + bool" where
  "canLoadPrivate L testIdentityBuf =
     (case testIdentityBuf of
        JArrayBuffer b \<Rightarrow>
          (case identity_deserialize L b of
             Inl e \<Rightarrow> Inl (Error ''enigma-invalid-input'')
           | Inr d \<Rightarrow> Inr (js_neq_null (JArrayBuffer (r_secret d))))
      | _ \<Rightarrow> Inl (Error ''enigma-invalid-input''))"

definition exportPublic :: "lib \<Rightarrow> identity \<Rightarrow> error + buf" where
  "exportPublic L self =
     identity_serialize L
       \<lparr>r_subject = subjectBuf self, r_algorithm = algorithmName self,
        r_public = publicKeyBuf self, r_secret = [], r_signature = signatureBuf self\<rparr>"

fun jsbuf :: "buf option \<Rightarrow> jsval" where
  "jsbuf None = JUndefined"
| "jsbuf (Some b) = JArrayBuffer b"

definition exportPrivate :: "lib \<Rightarrow> identity \<Rightarrow> jsval \<Rightarrow> error + buf" where
  "exportPrivate L self pinkeyBuf =
     (if \<not> prv self then Inl (TypeError ''exportPrivate'')
      else if \<not> (isArrayBuffer pinkeyBuf \<and> js_ge (prop_byteLength pinkeyBuf) (JNum 32))
      then Inl (Error ''enigma-invalid-pinkey'')
      else case sym_encrypt L pinkeyBuf (jsbuf (secretBuf self)) of
        Inl e \<Rightarrow> Inl e
      | Inr secretEncryptedBuf \<Rightarrow>
          identity_serialize L
            \<lparr>r_subject = subjectBuf self, r_algorithm = algorithmName self,
             r_public = publicKeyBuf self, r_secret = secretEncryptedBuf,
             r_signature = signatureBuf self\<rparr>)"

text \<open>
  The four operations delegate to the asymmetric cipher after a type check. Only
  \<^verbatim>\<open>verify\<close> turns an exception of the cipher into a value.
\<close>

definition identity_verify :: "lib \<Rightarrow> identity \<Rightarrow> jsval \<Rightarrow> jsval \<Rightarrow> error + bool" where
  "identity_verify L self plaintext signature =
     (case (plaintext, signature) of
        (JArrayBuffer p, JArrayBuffer s) \<Rightarrow>
          (case asym_verify L (asymCipher self) p s of
             Inl e \<Rightarrow> Inr False
           | Inr r \<Rightarrow> Inr (r = JBool True))
      | _ \<Rightarrow> Inl (Error ''enigma-invalid-input''))"

definition identity_sign :: "lib \<Rightarrow> identity \<Rightarrow> nat \<Rightarrow> jsval \<Rightarrow> error + buf" where
  "identity_sign L self seed plaintext =
     (if \<not> prv self then Inl (TypeError ''sign'')
      else case plaintext of
        JArrayBuffer p \<Rightarrow>
          (case asym_sign L (asymCipher self) seed p of
             Inl e \<Rightarrow> Inl (Error ''enigma-identity-unable-to-sign'')
           | Inr s \<Rightarrow> Inr s)
      | _ \<Rightarrow> Inl (Error ''enigma-invalid-input''))"

definition identity_encrypt :: "lib \<Rightarrow> identity \<Rightarrow> nat \<Rightarrow> jsval \<Rightarrow> error + buf" where
  "identity_encrypt L self seed plaintext =
     (case plaintext of
        JArrayBuffer p \<Rightarrow>
          (case asym_encrypt L (asymCipher self) seed p of
             Inl e \<Rightarrow> Inl (Error ''enigma-identity-unable-to-encrypt'')
           | Inr c \<Rightarrow> Inr c)
      | _ \<Rightarrow> Inl (Error ''enigma-invalid-input''))"

definition identity_decrypt :: "lib \<Rightarrow> identity \<Rightarrow> jsval \<Rightarrow> error + buf" where
  "identity_decrypt L self ciphertext =
     (if \<not> prv self then Inl (TypeError ''decrypt'')
      else case ciphertext of
        JArrayBuffer c \<Rightarrow>
          (case asym_decrypt L (asymCipher self) c of
             Inl e \<Rightarrow> Inl (Error ''enigma-identity-unable-to-decrypt'')
           | Inr p \<Rightarrow> Inr p)
      | _ \<Rightarrow> Inl (Error ''enigma-invalid-input''))"

section \<open>Messages (message.js)\<close>

text \<open>
  The variables of the closure of a message and the set of methods the object has.
  \<open>payloadBuf\<close> is \<^verbatim>\<open>undefined\<close> until \<^verbatim>\<open>read\<close> assigns it, and it is read
  only after that; \<open>payloadCompression = None\<close> is the variable left
  \<^verbatim>\<open>undefined\<close>.
\<close>

record message =
  methods :: "string set"
  plaintextBuf :: jsval
  mainKeyBuf :: jsval
  receivers :: "buf list"
  decryptors :: "buf list"
  signatures :: "buf list"
  signers :: "buf list"
  clearSign :: bool
  payloadBuf :: buf
  payloadCompression :: "compression option"

definition new_message :: message where
  "new_message =
     \<lparr>methods = {''write'', ''read''}, plaintextBuf = JUndefined, mainKeyBuf = JUndefined,
      receivers = [], decryptors = [], signatures = [], signers = [], clearSign = False,
      payloadBuf = [], payloadCompression = None\<rparr>"

text \<open>
  \<^verbatim>\<open>write(plaintext, options)\<close>; the third argument is the value of
  \<^verbatim>\<open>options.clearsign\<close>, \<^verbatim>\<open>undefined\<close> when no options are given.
\<close>

definition message_write :: "lib \<Rightarrow> message \<Rightarrow> jsval \<Rightarrow> jsval \<Rightarrow> error + message" where
  "message_write L self plaintext clearsign =
     (if \<not> isArrayBuffer plaintext then Inl (Error ''enigma-invalid-input'')
      else
        (let cs = (clearsign = JBool True)
         in Inr (self\<lparr>plaintextBuf := plaintext,
                       mainKeyBuf := JArrayBuffer (srand_bytes L 64),
                       clearSign := cs,
                       methods := (if \<not> cs then {''encrypt''} else {})
                                  \<union> insert ''sign'' (methods self - {''write'', ''read''})\<rparr>)))"

text \<open>
  \<^verbatim>\<open>sign\<close> and \<^verbatim>\<open>encrypt\<close>: every exception is thrown before the first
  assignment, so a call that throws leaves the message as it was.
\<close>

definition message_sign :: "lib \<Rightarrow> message \<Rightarrow> identity \<Rightarrow> nat \<Rightarrow> error + message" where
  "message_sign L self withIdentity seed =
     (if \<not> isPrivate withIdentity then Inl (Error ''enigma-invalid-identity-for-sign'')
      else
        (let withIdentityFp = getFingerprint L withIdentity
         in case identity_sign L withIdentity seed (plaintextBuf self) of
              Inl e \<Rightarrow> Inl e
            | Inr signature \<Rightarrow>
                (let s1 = self\<lparr>signers := signers self @ [withIdentityFp],
                                signatures := signatures self @ [signature]\<rparr>;
                     s2 = (if length (signers s1) \<ge> 255
                           then s1\<lparr>methods := methods s1 - {''sign''}\<rparr> else s1);
                     s3 = (if ''done'' \<notin> methods s2
                           then s2\<lparr>methods := insert ''done'' (methods s2)\<rparr> else s2)
                 in Inr s3)))"

definition message_encrypt :: "lib \<Rightarrow> message \<Rightarrow> identity \<Rightarrow> nat \<Rightarrow> error + message" where
  "message_encrypt L self toIdentity seed =
     (case identity_encrypt L toIdentity seed (mainKeyBuf self) of
        Inl e \<Rightarrow> Inl e
      | Inr decryptor \<Rightarrow>
          (let toIdentityFp = getFingerprint L toIdentity;
               s1 = self\<lparr>receivers := receivers self @ [toIdentityFp],
                          decryptors := decryptors self @ [decryptor]\<rparr>;
               s2 = (if length (receivers s1) \<ge> 255
                     then s1\<lparr>methods := methods s1 - {''encrypt''}\<rparr> else s1);
               s3 = (if ''done'' \<notin> methods s2
                     then s2\<lparr>methods := insert ''done'' (methods s2)\<rparr> else s2)
           in Inr s3))"

text \<open>
  \<^verbatim>\<open>done\<close> returns the buffer, or throws what a building block throws, and leaves
  the message changed in either case. The clear-sign return comes before
  \<^verbatim>\<open>delete self.done\<close>.
\<close>

definition message_done :: "lib \<Rightarrow> message \<Rightarrow> (error + buf) \<times> message" where
  "message_done L self =
     (let s1 = self\<lparr>methods := methods self - {''sign'', ''encrypt''}\<rparr>
      in case payload_serialize L (signers s1) (signatures s1) (plaintextBuf s1) of
           Inl e \<Rightarrow> (Inl e, s1)
         | Inr payloadB \<Rightarrow>
             if clearSign s1 then (Inr payloadB, s1)
             else
               (case compress L payloadB of
                  Inl e \<Rightarrow> (Inl e, s1)
                | Inr compressed \<Rightarrow>
                    (case (if length (decryptors s1) > 0
                           then sym_encrypt L (mainKeyBuf s1) (JArrayBuffer compressed)
                           else Inr compressed) of
                       Inl e \<Rightarrow> (Inl e, s1)
                     | Inr payloadB2 \<Rightarrow>
                         (case envelope_serialize L
                                 \<lparr>e_compression = CompLzw, e_receivers = receivers s1,
                                  e_decryptors = decryptors s1, e_payload = payloadB2\<rparr> of
                            Inl e \<Rightarrow> (Inl e, s1)
                          | Inr envelopeBuf \<Rightarrow>
                              (Inr envelopeBuf,
                               s1\<lparr>methods := methods s1 - {''done''}\<rparr>)))))"

definition continueUnpackPayload :: "lib \<Rightarrow> message \<Rightarrow> error + message" where
  "continueUnpackPayload L self =
     (case
        (if payloadCompression self = Some CompLzw then
           (case decompress L (payloadBuf self) of
              Inl e \<Rightarrow> Inl (Error ''enigma-invalid-input'')
            | Inr b \<Rightarrow> Inr (self\<lparr>payloadBuf := b\<rparr>))
         else if payloadCompression self \<noteq> Some CompFalse
         then Inl (Error ''enigma-invalid-input'')
         else Inr self)
      of
        Inl e \<Rightarrow> Inl e
      | Inr s1 \<Rightarrow>
          (case payload_deserialize L (payloadBuf s1) of
             Inl e \<Rightarrow> Inl (Error ''enigma-invalid-input'')
           | Inr payloadDeserialized \<Rightarrow>
               (let dSignatures = p_signatures payloadDeserialized;
                    dSigners = p_signers payloadDeserialized;
                    dPlaintext = p_content payloadDeserialized
                in if length dSignatures \<noteq> length dSigners
                   then Inl (Error ''enigma-invalid-input'')
                   else
                     (let s2 = s1\<lparr>plaintextBuf := JArrayBuffer dPlaintext,
                                   methods := insert ''getPlaintext'' (methods s1)\<rparr>
                      in if length dSigners > 0
                         then Inr (s2\<lparr>signatures := dSignatures, signers := dSigners,
                                       methods := {''verify'', ''getSigners''} \<union> methods s2\<rparr>)
                         else Inr s2))))"

definition message_read :: "lib \<Rightarrow> message \<Rightarrow> jsval \<Rightarrow> error + message" where
  "message_read L self textBuf =
     (case textBuf of
        JArrayBuffer tb \<Rightarrow>
          (case envelope_deserialize L tb of
             Inr envelopeDeserialized \<Rightarrow>
               (let dReceivers = e_receivers envelopeDeserialized;
                    dDecryptors = e_decryptors envelopeDeserialized;
                    s1 = self\<lparr>payloadBuf := e_payload envelopeDeserialized,
                               payloadCompression :=
                                 Some (e_compression envelopeDeserialized)\<rparr>
                in if length dReceivers \<noteq> length dDecryptors
                   then Inl (Error ''enigma-invalid-input'')
                   else if length dReceivers > 0
                   then Inr (s1\<lparr>decryptors := dDecryptors, receivers := dReceivers,
                                 methods := ({''decrypt'', ''getReceivers''} \<union> methods s1)
                                            - {''write'', ''read''}\<rparr>)
                   else
                     (case continueUnpackPayload L s1 of
                        Inl e \<Rightarrow> Inl e
                      | Inr s2 \<Rightarrow>
                          Inr (s2\<lparr>methods := methods s2 - {''write'', ''read''}\<rparr>)))
           | Inl e \<Rightarrow>
               (case continueUnpackPayload L
                       (self\<lparr>payloadCompression := Some CompFalse, payloadBuf := tb\<rparr>) of
                  Inl e \<Rightarrow> Inl e
                | Inr s2 \<Rightarrow> Inr (s2\<lparr>methods := methods s2 - {''write'', ''read''}\<rparr>)))
      | _ \<Rightarrow> Inl (Error ''enigma-invalid-input''))"

text \<open>
  The loop of \<^verbatim>\<open>decrypt\<close> and \<^verbatim>\<open>verify\<close>: the index of the first entry equal to
  the fingerprint, counting from \<open>i\<close>; \<open>None\<close> when the loop ends with
  \<^verbatim>\<open>found\<close> false.
\<close>

fun lookupFingerprint :: "buf \<Rightarrow> buf list \<Rightarrow> nat \<Rightarrow> nat option" where
  "lookupFingerprint fp [] i = None"
| "lookupFingerprint fp (x # xs) i =
     (if fp = x then Some i else lookupFingerprint fp xs (Suc i))"

text \<open>\<^verbatim>\<open>list[i]\<close>: \<^verbatim>\<open>undefined\<close> beyond the end of the array.\<close>

definition js_index :: "buf list \<Rightarrow> nat \<Rightarrow> jsval" where
  "js_index xs i = (if i < length xs then JArrayBuffer (xs ! i) else JUndefined)"

definition message_decrypt :: "lib \<Rightarrow> message \<Rightarrow> identity \<Rightarrow> error + message" where
  "message_decrypt L self withIdentity =
     (if \<not> isPrivate withIdentity
      then Inl (Error ''enigma-invalid-public-identity-for-decrypt'')
      else case lookupFingerprint (getFingerprint L withIdentity) (receivers self) 0 of
        None \<Rightarrow> Inl (Error ''enigma-not-intended-identity-for-decrypt'')
      | Some i \<Rightarrow>
          (case identity_decrypt L withIdentity (js_index (decryptors self) i) of
             Inl e \<Rightarrow> Inl (Error ''enigma-identity-decryption-error'')
           | Inr mainKey \<Rightarrow>
               (case sym_decrypt L (JArrayBuffer mainKey) (payloadBuf self) of
                  Inl e \<Rightarrow> Inl (Error ''enigma-message-corrupted'')
                | Inr b \<Rightarrow>
                    (case continueUnpackPayload L (self\<lparr>payloadBuf := b\<rparr>) of
                       Inl e \<Rightarrow> Inl e
                     | Inr s2 \<Rightarrow>
                         Inr (s2\<lparr>methods :=
                                   methods s2 - {''decrypt'', ''getReceivers''}\<rparr>)))))"

definition message_verify :: "lib \<Rightarrow> message \<Rightarrow> identity \<Rightarrow> error + bool" where
  "message_verify L self withIdentity =
     (case lookupFingerprint (getFingerprint L withIdentity) (signers self) 0 of
        None \<Rightarrow> Inl (Error ''enigma-invalid-identity-for-verify'')
      | Some i \<Rightarrow>
          (case identity_verify L withIdentity (plaintextBuf self)
                  (js_index (signatures self) i) of
             Inl e \<Rightarrow> Inl (Error ''enigma-invalid-identity-for-verify'')
           | Inr r \<Rightarrow> Inr r))"

definition getPlaintext :: "message \<Rightarrow> jsval" where
  "getPlaintext self = plaintextBuf self"

text \<open>Calls through the object: a method that has been deleted, or never installed, is
  \<^verbatim>\<open>undefined\<close>, and calling it throws a \<^verbatim>\<open>TypeError\<close>.\<close>

definition call_write :: "lib \<Rightarrow> message \<Rightarrow> jsval \<Rightarrow> jsval \<Rightarrow> error + message" where
  "call_write L self plaintext clearsign =
     (if ''write'' \<in> methods self then message_write L self plaintext clearsign
      else Inl (TypeError ''write''))"

definition call_read :: "lib \<Rightarrow> message \<Rightarrow> jsval \<Rightarrow> error + message" where
  "call_read L self textBuf =
     (if ''read'' \<in> methods self then message_read L self textBuf
      else Inl (TypeError ''read''))"

definition call_sign :: "lib \<Rightarrow> message \<Rightarrow> identity \<Rightarrow> nat \<Rightarrow> error + message" where
  "call_sign L self withIdentity seed =
     (if ''sign'' \<in> methods self then message_sign L self withIdentity seed
      else Inl (TypeError ''sign''))"

definition call_encrypt :: "lib \<Rightarrow> message \<Rightarrow> identity \<Rightarrow> nat \<Rightarrow> error + message" where
  "call_encrypt L self toIdentity seed =
     (if ''encrypt'' \<in> methods self then message_encrypt L self toIdentity seed
      else Inl (TypeError ''encrypt''))"

definition call_done :: "lib \<Rightarrow> message \<Rightarrow> (error + buf) \<times> message" where
  "call_done L self =
     (if ''done'' \<in> methods self then message_done L self
      else (Inl (TypeError ''done''), self))"

definition call_decrypt :: "lib \<Rightarrow> message \<Rightarrow> identity \<Rightarrow> error + message" where
  "call_decrypt L self withIdentity =
     (if ''decrypt'' \<in> methods self then message_decrypt L self withIdentity
      else Inl (TypeError ''decrypt''))"

definition call_message_verify :: "lib \<Rightarrow> message \<Rightarrow> identity \<Rightarrow> error + bool" where
  "call_message_verify L self withIdentity =
     (if ''verify'' \<in> methods self then message_verify L self withIdentity
      else Inl (TypeError ''verify''))"

definition call_getPlaintext :: "message \<Rightarrow> error + jsval" where
  "call_getPlaintext self =
     (if ''getPlaintext'' \<in> methods self then Inr (getPlaintext self)
      else Inl (TypeError ''getPlaintext''))"

text \<open>
  A caller's sequence of \<^verbatim>\<open>sign\<close> and \<^verbatim>\<open>encrypt\<close> calls on one message.
  \<open>run_calls\<close> is the sequence in which every call returns; \<open>attempt_calls\<close> goes on
  after a call that throws and counts the calls that returned.
\<close>

datatype call = Sign identity nat | Encrypt identity nat

fun do_call :: "lib \<Rightarrow> message \<Rightarrow> call \<Rightarrow> error + message" where
  "do_call L self (Sign i seed) = call_sign L self i seed"
| "do_call L self (Encrypt i seed) = call_encrypt L self i seed"

fun run_calls :: "lib \<Rightarrow> message \<Rightarrow> call list \<Rightarrow> error + message" where
  "run_calls L self [] = Inr self"
| "run_calls L self (c # cs) =
     (case do_call L self c of
        Inl e \<Rightarrow> Inl e
      | Inr s \<Rightarrow> run_calls L s cs)"

fun attempt_calls :: "lib \<Rightarrow> message \<Rightarrow> call list \<Rightarrow> message \<times> nat" where
  "attempt_calls L self [] = (self, 0)"
| "attempt_calls L self (c # cs) =
     (case do_call L self c of
        Inl e \<Rightarrow> attempt_calls L self cs
      | Inr s \<Rightarrow> (case attempt_calls L s cs of (s', n) \<Rightarrow> (s', Suc n)))"

fun isSign :: "call \<Rightarrow> bool" where
  "isSign (Sign i seed) = True"
| "isSign (Encrypt i seed) = False"

text \<open>A sequence of \<^verbatim>\<open>decrypt\<close> calls on one message in which every call returns.\<close>

fun run_decrypts :: "lib \<Rightarrow> message \<Rightarrow> identity list \<Rightarrow> error + message" where
  "run_decrypts L self [] = Inr self"
| "run_decrypts L self (i # is) =
     (case call_decrypt L self i of
        Inl e \<Rightarrow> Inl e
      | Inr s \<Rightarrow> run_decrypts L s is)"

section \<open>What the theorems require of the building blocks\<close>

text \<open>
  Modelled from the spec: the serialization codec, the compressor and the two ciphers are
  not among the sources. The spec gives them a fixed contract: what \<^verbatim>\<open>serialize\<close>
  produces, \<^verbatim>\<open>deserialize\<close> reads back; a Payload buffer starts with another tag than
  an Envelope buffer, so decoding it as an Envelope fails; decompression inverts
  compression; decryption with the key of the encryption returns the plaintext.
\<close>

definition identity_codec_ok :: "lib \<Rightarrow> bool" where
  "identity_codec_ok L \<longleftrightarrow>
     (\<forall>r b. identity_serialize L r = Inr b \<longrightarrow> identity_deserialize L b = Inr r)"

definition message_codec_ok :: "lib \<Rightarrow> bool" where
  "message_codec_ok L \<longleftrightarrow>
     (\<forall>sg sig c b. payload_serialize L sg sig (JArrayBuffer c) = Inr b \<longrightarrow>
        payload_deserialize L b = Inr \<lparr>p_signers = sg, p_signatures = sig, p_content = c\<rparr>) \<and>
     (\<forall>v b. envelope_serialize L v = Inr b \<longrightarrow> envelope_deserialize L b = Inr v) \<and>
     (\<forall>sg sig c b. payload_serialize L sg sig c = Inr b \<longrightarrow>
        (\<exists>e. envelope_deserialize L b = Inl e)) \<and>
     (\<forall>b c. compress L b = Inr c \<longrightarrow> decompress L c = Inr b)"

definition symmetric_ok :: "lib \<Rightarrow> bool" where
  "symmetric_ok L \<longleftrightarrow>
     (\<forall>k x c. sym_encrypt L k (JArrayBuffer x) = Inr c \<longrightarrow> sym_decrypt L k c = Inr x)"

text \<open>
  A cipher that holds a private key decrypts what any cipher of the same algorithm and
  public key has encrypted.
\<close>

definition asymmetric_ok :: "lib \<Rightarrow> bool" where
  "asymmetric_ok L \<longleftrightarrow>
     (\<forall>c c' s seed x ct.
        c_alg c = c_alg c' \<longrightarrow> c_public c = c_public c' \<longrightarrow> c_secret c' = Some s \<longrightarrow>
        asym_publicOfSecret L (c_alg c') s = Inr (c_public c') \<longrightarrow>
        asym_encrypt L c seed x = Inr ct \<longrightarrow> asym_decrypt L c' ct = Inr x)"

text \<open>
  An identity that holds its own private key: what \<^verbatim>\<open>generate\<close> and a
  \<^verbatim>\<open>loadPrivate\<close> with a pin key produce.
\<close>

definition holdsPrivateKey :: "lib \<Rightarrow> identity \<Rightarrow> bool" where
  "holdsPrivateKey L i \<longleftrightarrow>
     prv i \<and>
     (case c_secret (asymCipher i) of
        None \<Rightarrow> False
      | Some s \<Rightarrow>
          asym_publicOfSecret L (c_alg (asymCipher i)) s = Inr (c_public (asymCipher i)))"

section \<open>A small implementation of the building blocks\<close>

text \<open>
  An executable instance of the registry: a codec that escapes instead of counting, a
  compressor that only marks its output, and ciphers that are not secret. It shows that
  the contracts above can be met and lets the operations run on concrete buffers.
\<close>

fun enc_bytes :: "buf \<Rightarrow> buf" where
  "enc_bytes [] = [0]"
| "enc_bytes (x # xs) = 1 # x # enc_bytes xs"

fun dec_bytes :: "buf \<Rightarrow> (buf \<times> buf) option" where
  "dec_bytes [] = None"
| "dec_bytes [t] = (if t = 0 then Some ([], []) else None)"
| "dec_bytes (t # x # rest) =
     (if t = 0 then Some ([], x # rest)
      else if t = 1 then
        (case dec_bytes rest of None \<Rightarrow> None | Some (xs, r) \<Rightarrow> Some (x # xs, r))
      else None)"

fun enc_items :: "buf list \<Rightarrow> buf" where
  "enc_items [] = [0]"
| "enc_items (b # bs) = 1 # enc_bytes b @ enc_items bs"

fun dec_items :: "nat \<Rightarrow> buf \<Rightarrow> (buf list \<times> buf) option" where
  "dec_items 0 bs = None"
| "dec_items (Suc n) [] = None"
| "dec_items (Suc n) (t # rest) =
     (if t = 0 then Some ([], rest)
      else if t = 1 then
        (case dec_bytes rest of
           None \<Rightarrow> None
         | Some (b, r) \<Rightarrow>
             (case dec_items n r of None \<Rightarrow> None | Some (xs, r') \<Rightarrow> Some (b # xs, r')))
      else None)"

definition ref_payload_serialize :: "buf list \<Rightarrow> buf list \<Rightarrow> jsval \<Rightarrow> error + buf" where
  "ref_payload_serialize sg sig content =
     (case content of
        JArrayBuffer c \<Rightarrow> Inr ([69, 112] @ enc_items sg @ enc_items sig @ enc_bytes c)
      | _ \<Rightarrow> Inl (Error ''serialize''))"

definition ref_payload_deserialize :: "buf \<Rightarrow> error + payload_record" where
  "ref_payload_deserialize b =
     (if take 2 b \<noteq> [69, 112] then Inl (Error ''deserialize'')
      else case dec_items (length b) (drop 2 b) of
        None \<Rightarrow> Inl (Error ''deserialize'')
      | Some (sgr, r1) \<Rightarrow>
          (case dec_items (length b) r1 of
             None \<Rightarrow> Inl (Error ''deserialize'')
           | Some (sigs, r2) \<Rightarrow>
               (case dec_bytes r2 of
                  Some (c, []) \<Rightarrow>
                    Inr \<lparr>p_signers = sgr, p_signatures = sigs, p_content = c\<rparr>
                | _ \<Rightarrow> Inl (Error ''deserialize''))))"

definition ref_envelope_serialize :: "envelope_record \<Rightarrow> error + buf" where
  "ref_envelope_serialize v =
     Inr ([69, 67] @ [if e_compression v = CompLzw then 1 else 0]
          @ enc_items (e_receivers v) @ enc_items (e_decryptors v) @ enc_bytes (e_payload v))"

definition ref_envelope_deserialize :: "buf \<Rightarrow> error + envelope_record" where
  "ref_envelope_deserialize b =
     (if take 2 b \<noteq> [69, 67] \<or> length b < 3 \<or> 1 < b ! 2 then Inl (Error ''deserialize'')
      else case dec_items (length b) (drop 3 b) of
        None \<Rightarrow> Inl (Error ''deserialize'')
      | Some (rcv, r1) \<Rightarrow>
          (case dec_items (length b) r1 of
             None \<Rightarrow> Inl (Error ''deserialize'')
           | Some (dcr, r2) \<Rightarrow>
               (case dec_bytes r2 of
                  Some (pl, []) \<Rightarrow>
                    Inr \<lparr>e_compression = (if b ! 2 = 1 then CompLzw else CompFalse),
                         e_receivers = rcv, e_decryptors = dcr, e_payload = pl\<rparr>
                | _ \<Rightarrow> Inl (Error ''deserialize''))))"

definition ref_identity_serialize :: "identity_record \<Rightarrow> error + buf" where
  "ref_identity_serialize r =
     (if r_algorithm r \<noteq> ''NECRAC128'' then Inl (Error ''serialize'')
      else Inr ([69, 73] @ enc_bytes (r_subject r) @ enc_bytes (r_public r)
                @ enc_bytes (r_secret r) @ enc_bytes (r_signature r)))"

definition ref_identity_deserialize :: "buf \<Rightarrow> error + identity_record" where
  "ref_identity_deserialize b =
     (if take 2 b \<noteq> [69, 73] then Inl (Error ''deserialize'')
      else case dec_bytes (drop 2 b) of
        None \<Rightarrow> Inl (Error ''deserialize'')
      | Some (sbj, r1) \<Rightarrow>
          (case dec_bytes r1 of
             None \<Rightarrow> Inl (Error ''deserialize'')
           | Some (pub, r2) \<Rightarrow>
               (case dec_bytes r2 of
                  None \<Rightarrow> Inl (Error ''deserialize'')
                | Some (sec, r3) \<Rightarrow>
                    (case dec_bytes r3 of
                       Some (sig, []) \<Rightarrow>
                         Inr \<lparr>r_subject = sbj, r_algorithm = ''NECRAC128'', r_public = pub,
                              r_secret = sec, r_signature = sig\<rparr>
                     | _ \<Rightarrow> Inl (Error ''deserialize'')))))"

definition ref_publicOfSecret :: "string \<Rightarrow> buf \<Rightarrow> error + buf" where
  "ref_publicOfSecret name s = Inr (map (\<lambda>x. x + 1) s)"

definition ref_asym_sign :: "cipher \<Rightarrow> nat \<Rightarrow> buf \<Rightarrow> error + buf" where
  "ref_asym_sign c seed m =
     (case c_secret c of
        None \<Rightarrow> Inl (Error ''no-private-key'')
      | Some s \<Rightarrow> Inr (enc_bytes (c_public c) @ m))"

definition ref_asym_verify :: "cipher \<Rightarrow> buf \<Rightarrow> buf \<Rightarrow> error + jsval" where
  "ref_asym_verify c m sig = Inr (JBool (sig = enc_bytes (c_public c) @ m))"

definition ref_asym_encrypt :: "cipher \<Rightarrow> nat \<Rightarrow> buf \<Rightarrow> error + buf" where
  "ref_asym_encrypt c seed m = Inr (of_nat seed # enc_bytes (c_public c) @ m)"

definition ref_asym_decrypt :: "cipher \<Rightarrow> buf \<Rightarrow> error + buf" where
  "ref_asym_decrypt c ct =
     (case c_secret c of
        None \<Rightarrow> Inl (Error ''no-private-key'')
      | Some s \<Rightarrow>
          (case ct of
             [] \<Rightarrow> Inl (Error ''decrypt'')
           | seed # body \<Rightarrow>
               (case dec_bytes body of
                  None \<Rightarrow> Inl (Error ''decrypt'')
                | Some (pub, m) \<Rightarrow>
                    if pub = map (\<lambda>x. x + 1) s then Inr m else Inl (Error ''decrypt''))))"

definition ref_sym_encrypt :: "jsval \<Rightarrow> jsval \<Rightarrow> error + buf" where
  "ref_sym_encrypt k d =
     (case (k, d) of
        (JArrayBuffer kb, JArrayBuffer db) \<Rightarrow> Inr (enc_bytes kb @ db)
      | _ \<Rightarrow> Inl (Error ''encrypt''))"

definition ref_sym_decrypt :: "jsval \<Rightarrow> buf \<Rightarrow> error + buf" where
  "ref_sym_decrypt k c =
     (case k of
        JArrayBuffer kb \<Rightarrow>
          (case dec_bytes c of
             None \<Rightarrow> Inl (Error ''decrypt'')
           | Some (kb', m) \<Rightarrow> if kb' = kb then Inr m else Inl (Error ''decrypt''))
      | _ \<Rightarrow> Inl (Error ''decrypt''))"

definition ref_compress :: "buf \<Rightarrow> error + buf" where
  "ref_compress b = Inr (76 # b)"

definition ref_decompress :: "buf \<Rightarrow> error + buf" where
  "ref_decompress c =
     (case c of
        [] \<Rightarrow> Inl (Error ''decompress'')
      | t # b \<Rightarrow> if t = 76 then Inr b else Inl (Error ''decompress''))"

definition ref_getDef :: "string \<Rightarrow> algorithm option" where
  "ref_getDef name =
     (if name = ''NECRAC128'' then Some \<lparr>alg_name = ''NECRAC128'', secretLength = 4\<rparr>
      else None)"

definition ref_lib :: lib where
  "ref_lib =
     \<lparr>identity_serialize = ref_identity_serialize,
      identity_deserialize = ref_identity_deserialize,
      payload_serialize = ref_payload_serialize,
      payload_deserialize = ref_payload_deserialize,
      envelope_serialize = ref_envelope_serialize,
      envelope_deserialize = ref_envelope_deserialize,
      encode_ascii = map (\<lambda>c. of_nat (of_char c)),
      decode_ascii = map (\<lambda>x. char_of (unat x)),
      encode_string = map (\<lambda>c. of_nat (of_char c)),
      mac = (\<lambda>k m. k @ m),
      hash_n = (\<lambda>n b. take n (b @ replicate n 0)),
      getDef = ref_getDef,
      asym_publicOfSecret = ref_publicOfSecret,
      asym_rejectsPublic = (\<lambda>name pub. None),
      asym_sign = ref_asym_sign,
      asym_verify = ref_asym_verify,
      asym_encrypt = ref_asym_encrypt,
      asym_decrypt = ref_asym_decrypt,
      sym_encrypt = ref_sym_encrypt,
      sym_decrypt = ref_sym_decrypt,
      compress = ref_compress,
      decompress = ref_decompress,
      srand_bytes = (\<lambda>n. replicate n 7)\<rparr>"

definition ref_ec_lib :: ec_lib where
  "ref_ec_lib =
     \<lparr>ecparams = (\<lambda>name. name = ''secp256k1''),
      fromByteArrayUnsigned = (\<lambda>xs. foldl (\<lambda>a x. 256 * a + x) 0 xs),
      publicOfPrivate = (\<lambda>name d. [4, d]),
      ecdsa_verify = (\<lambda>name digest sig pub. Inr (JBool (sig = [1]))),
      sharedSecret = (\<lambda>name q d. Inr (JArray q)),
      pbkdf2 = (\<lambda>secret salt rounds len. Inr (JArrayBuffer [])),
      buffer_xor = (\<lambda>a b. Inr a),
      buffer_concat = (\<lambda>xs. Inr (JArrayBuffer [])),
      ec_srand_bytes = (\<lambda>n. JArrayBuffer (replicate n 7))\<rparr>"

definition ref_ec_public :: ec where
  "ref_ec_public =
     initWithPublicKey
       \<lparr>curveName = ''secp256k1'', bigiPrivateKey = None, bigiPublicKey = JNull,
        ec_methods = {''setPrivateKey'', ''setPublicKey''}\<rparr>
       (JArray [4, 1])"

section \<open>Invariants of messages\<close>

text \<open>
  \<open>written\<close> holds of a message after \<^verbatim>\<open>write\<close> and after every \<^verbatim>\<open>sign\<close>
  and \<^verbatim>\<open>encrypt\<close> call; \<open>readable\<close> holds after \<^verbatim>\<open>read\<close> and after every
  \<^verbatim>\<open>decrypt\<close> call. \<open>wrapsFor\<close> says that an entry of the receiver and
  decryptor lists comes from one of the \<^verbatim>\<open>encrypt\<close> calls. \<open>intendedRecipient\<close>
  says that an identity has the fingerprint of a receiver, and that the receivers with
  that fingerprint have its algorithm and public key.
\<close>

definition written :: "message \<Rightarrow> bool" where
  "written s \<longleftrightarrow>
     (''sign'' \<in> methods s \<longleftrightarrow> length (signers s) < 255) \<and>
     (''encrypt'' \<in> methods s \<longleftrightarrow> \<not> clearSign s \<and> length (receivers s) < 255) \<and>
     (''done'' \<in> methods s \<longleftrightarrow> signers s \<noteq> [] \<or> receivers s \<noteq> []) \<and>
     length (signers s) \<le> 255 \<and> length (receivers s) \<le> 255"

definition readable :: "message \<Rightarrow> bool" where
  "readable s \<longleftrightarrow>
     length (signatures s) = length (signers s) \<and>
     (''verify'' \<in> methods s \<longrightarrow> isArrayBuffer (plaintextBuf s))"

definition wrapsFor :: "lib \<Rightarrow> jsval \<Rightarrow> call list \<Rightarrow> buf \<times> buf \<Rightarrow> bool" where
  "wrapsFor L key cs e \<longleftrightarrow>
     (\<exists>i seed. Encrypt i seed \<in> set cs \<and> fst e = getFingerprint L i \<and>
        identity_encrypt L i seed key = Inr (snd e))"

fun receiverOf :: "call \<Rightarrow> identity option" where
  "receiverOf (Encrypt r seed) = Some r"
| "receiverOf (Sign i seed) = None"

definition intendedRecipient :: "lib \<Rightarrow> call list \<Rightarrow> identity \<Rightarrow> bool" where
  "intendedRecipient L cs me \<longleftrightarrow>
     list_ex (\<lambda>c. case receiverOf c of
                     Some r \<Rightarrow> getFingerprint L r = getFingerprint L me
                   | None \<Rightarrow> False) cs \<and>
     list_all (\<lambda>c. case receiverOf c of
                      Some r \<Rightarrow>
                        getFingerprint L r = getFingerprint L me \<longrightarrow>
                        c_alg (asymCipher r) = c_alg (asymCipher me) \<and>
                        c_public (asymCipher r) = c_public (asymCipher me)
                    | None \<Rightarrow> True) cs"

section \<open>Identities and files for the small implementation\<close>

text \<open>
  \<open>alice\<close> is the identity that \<^verbatim>\<open>generate\<close> produces with the small
  implementation for the subject \<^verbatim>\<open>alice 0001\<close>; \<open>alice_file\<close> is an identity file
  with her subject and signature, a public key and a wrapped secret.
\<close>

definition alice :: identity where
  "alice =
     \<lparr>subjectBuf = map (\<lambda>c. of_nat (of_char c)) ''alice 0001'',
      secretBuf = Some [7, 7, 7, 7],
      publicKeyBuf = [8, 8, 8, 8],
      algorithmName = ''NECRAC128'',
      signatureBuf = enc_bytes [8, 8, 8, 8] @ [8, 8, 8, 8]
                     @ map (\<lambda>c. of_nat (of_char c)) ''alice 0001'',
      asymCipher = \<lparr>c_alg = ''NECRAC128'', c_public = [8, 8, 8, 8],
                     c_secret = Some [7, 7, 7, 7]\<rparr>,
      prv = True\<rparr>"

definition alice_stored :: "buf \<Rightarrow> buf \<Rightarrow> identity_record" where
  "alice_stored pub wrapped =
     \<lparr>r_subject = subjectBuf alice, r_algorithm = ''NECRAC128'', r_public = pub,
      r_secret = wrapped, r_signature = signatureBuf alice\<rparr>"

definition alice_file :: "buf \<Rightarrow> buf \<Rightarrow> buf" where
  "alice_file pub wrapped =
     [69, 73] @ enc_bytes (subjectBuf alice) @ enc_bytes pub @ enc_bytes wrapped
     @ enc_bytes (signatureBuf alice)"

text \<open>
  \<open>bob\<close> is a second identity with a private key, \<open>bob_public\<close> the same identity
  without the private key, and \<open>clearsigned_by_alice\<close> a clear-signed buffer that lists
  the fingerprint of \<open>alice\<close> with a signature that is not hers.
\<close>

definition bob :: identity where
  "bob =
     \<lparr>subjectBuf = map (\<lambda>c. of_nat (of_char c)) ''bob   0002'',
      secretBuf = Some [1, 2, 3, 4],
      publicKeyBuf = [2, 3, 4, 5],
      algorithmName = ''NECRAC128'',
      signatureBuf = enc_bytes [2, 3, 4, 5] @ [2, 3, 4, 5]
                     @ map (\<lambda>c. of_nat (of_char c)) ''bob   0002'',
      asymCipher = \<lparr>c_alg = ''NECRAC128'', c_public = [2, 3, 4, 5],
                     c_secret = Some [1, 2, 3, 4]\<rparr>,
      prv = True\<rparr>"

definition bob_public :: identity where
  "bob_public =
     bob\<lparr>secretBuf := None,
         asymCipher := \<lparr>c_alg = ''NECRAC128'', c_public = [2, 3, 4, 5], c_secret = None\<rparr>,
         prv := False\<rparr>"

definition clearsigned_by_alice :: buf where
  "clearsigned_by_alice =
     [69, 112] @ enc_items [[8, 8, 8, 8, 97, 108, 105, 99, 101, 32]] @ enc_items [[0]]
     @ enc_bytes [1, 2, 3]"

section \<open>The small implementation meets the contracts\<close>

lemma dec_enc_bytes: "dec_bytes (enc_bytes xs @ rest) = Some (xs, rest)"
proof (induction xs)
  case Nil
  then show ?case by (cases rest) simp_all
next
  case (Cons x xs)
  then show ?case by simp
qed

lemma dec_enc_bytes_end: "dec_bytes (enc_bytes xs) = Some (xs, [])"
  using dec_enc_bytes [of xs "[]"] by simp

lemma length_enc_bytes: "length (enc_bytes xs) = 2 * length xs + 1"
  by (induction xs) simp_all

lemma length_enc_items: "length bs < length (enc_items bs)"
  by (induction bs) (simp_all add: length_enc_bytes)

lemma dec_enc_items:
  "length bs < n \<Longrightarrow> dec_items n (enc_items bs @ rest) = Some (bs, rest)"
proof (induction bs arbitrary: n)
  case Nil
  then show ?case by (cases n) simp_all
next
  case (Cons b bs)
  then obtain m where n: "n = Suc m" and "length bs < m" by (cases n) simp_all
  then show ?case using Cons.IH [of m] by (simp add: dec_enc_bytes)
qed

lemma ref_payload_roundtrip:
  assumes "ref_payload_serialize sg sig (JArrayBuffer c) = Inr b"
  shows "ref_payload_deserialize b = Inr \<lparr>p_signers = sg, p_signatures = sig, p_content = c\<rparr>"
proof -
  have b: "b = [69, 112] @ enc_items sg @ enc_items sig @ enc_bytes c"
    using assms by (simp add: ref_payload_serialize_def)
  have l1: "length sg < length b" using length_enc_items [of sg] by (simp add: b)
  have l2: "length sig < length b" using length_enc_items [of sig] by (simp add: b)
  have d1: "dec_items (length b) (drop 2 b) = Some (sg, enc_items sig @ enc_bytes c)"
    using dec_enc_items [OF l1] by (simp add: b)
  have d2: "dec_items (length b) (enc_items sig @ enc_bytes c) = Some (sig, enc_bytes c)"
    using dec_enc_items [OF l2] by simp
  have t: "take 2 b = [69, 112]" by (simp add: b)
  show ?thesis
    unfolding ref_payload_deserialize_def by (simp add: t d1 d2 dec_enc_bytes_end)
qed

lemma ref_envelope_roundtrip:
  assumes "ref_envelope_serialize v = Inr b"
  shows "ref_envelope_deserialize b = Inr v"
proof -
  let ?t = "if e_compression v = CompLzw then 1 else 0 :: byte"
  have b: "b = [69, 67, ?t] @ enc_items (e_receivers v) @ enc_items (e_decryptors v)
                 @ enc_bytes (e_payload v)"
    using assms by (simp add: ref_envelope_serialize_def)
  have l1: "length (e_receivers v) < length b"
    using length_enc_items [of "e_receivers v"] by (simp add: b)
  have l2: "length (e_decryptors v) < length b"
    using length_enc_items [of "e_decryptors v"] by (simp add: b)
  have d1: "dec_items (length b) (drop 3 b) =
              Some (e_receivers v, enc_items (e_decryptors v) @ enc_bytes (e_payload v))"
    using dec_enc_items [OF l1] by (simp add: b)
  have d2: "dec_items (length b) (enc_items (e_decryptors v) @ enc_bytes (e_payload v)) =
              Some (e_decryptors v, enc_bytes (e_payload v))"
    using dec_enc_items [OF l2] by simp
  have t: "take 2 b = [69, 67]" "3 \<le> length b" "b ! 2 = ?t" by (simp_all add: b)
  have c: "(if ?t = 1 then CompLzw else CompFalse) = e_compression v"
    by (cases "e_compression v") simp_all
  have le: "\<not> 1 < ?t" by simp
  show ?thesis
    unfolding ref_envelope_deserialize_def using t(2) le c
    by (simp add: t(1) t(3) d1 d2 dec_enc_bytes_end del: One_nat_def)
qed

lemma ref_tags_distinct:
  assumes "ref_payload_serialize sg sig c = Inr b"
  shows "\<exists>e. ref_envelope_deserialize b = Inl e"
proof -
  obtain x where "b = [69, 112] @ x"
    using assms by (auto simp: ref_payload_serialize_def split: jsval.splits)
  then show ?thesis by (simp add: ref_envelope_deserialize_def)
qed

lemma ref_identity_roundtrip:
  assumes "ref_identity_serialize r = Inr b"
  shows "ref_identity_deserialize b = Inr r"
proof -
  have a: "r_algorithm r = ''NECRAC128''"
    using assms by (simp add: ref_identity_serialize_def split: if_splits)
  have b: "b = [69, 73] @ enc_bytes (r_subject r) @ enc_bytes (r_public r)
                 @ enc_bytes (r_secret r) @ enc_bytes (r_signature r)"
    using assms a by (simp add: ref_identity_serialize_def)
  have r: "r = \<lparr>r_subject = r_subject r, r_algorithm = ''NECRAC128'', r_public = r_public r,
                r_secret = r_secret r, r_signature = r_signature r\<rparr>"
    using a by simp
  show ?thesis
    unfolding ref_identity_deserialize_def b
    by (simp add: dec_enc_bytes dec_enc_bytes_end) (rule r [symmetric])
qed

lemma ref_identity_codec_ok: "identity_codec_ok ref_lib"
  by (simp add: identity_codec_ok_def ref_lib_def ref_identity_roundtrip)

lemma ref_message_codec_ok: "message_codec_ok ref_lib"
  unfolding message_codec_ok_def
  by (auto simp: ref_lib_def ref_payload_roundtrip ref_envelope_roundtrip ref_tags_distinct
      ref_compress_def ref_decompress_def)

lemma ref_symmetric_ok: "symmetric_ok ref_lib"
  by (auto simp: symmetric_ok_def ref_lib_def ref_sym_encrypt_def ref_sym_decrypt_def
      dec_enc_bytes split: jsval.splits)

lemma ref_asymmetric_ok: "asymmetric_ok ref_lib"
  by (auto simp: asymmetric_ok_def ref_lib_def ref_asym_encrypt_def ref_asym_decrypt_def
      ref_publicOfSecret_def dec_enc_bytes)

section \<open>The elliptic-curve primitive\<close>

lemma getDecryptCredential_invalid_parameter:
  "getDecryptCredential L self v = Inl (Error ''invalid-parameter'')"
  by (cases v) (simp_all add: getDecryptCredential_def computeSecret_def Let_def)

text \<open>
  C2. The claim: \<^verbatim>\<open>getDecryptCredential\<close>, on an instance that holds the private key,
  applied to what \<^verbatim>\<open>getEncryptCredentials\<close> returned for the matching public key,
  returns the plaintext. The code does not: whatever the ciphertext and whatever the key,
  the call throws. An argument that passes the entry check is an \<^verbatim>\<open>ArrayBuffer\<close>; the
  ephemeral key sliced from it is an \<^verbatim>\<open>ArrayBuffer\<close> too, and
  \<^verbatim>\<open>_computeSecret\<close> rejects everything that is not a plain \<^verbatim>\<open>Array\<close>.
\<close>

theorem getDecryptCredential_never_returns:
  "\<exists>e. call_getDecryptCredential L self ciphertext = Inl e"
  by (simp add: call_getDecryptCredential_def getDecryptCredential_invalid_parameter)

text \<open>
  C5. The claim: a ciphertext whose two-byte prefix declares a longer ephemeral key than
  the rest of the buffer holds is refused with \<^verbatim>\<open>invalid-ciphertext\<close>. The buffer
  \<open>FF FF 00\<close> declares 65535 bytes and holds one. The comparison reads
  \<^verbatim>\<open>length\<close> from an \<^verbatim>\<open>ArrayBuffer\<close>, gets \<^verbatim>\<open>undefined\<close> and is false, so
  the check lets the buffer through and the call fails later with
  \<^verbatim>\<open>invalid-parameter\<close>.
\<close>

theorem getDecryptCredential_overlong_key_length:
  "getDecryptCredential L self (JArrayBuffer [0xFF, 0xFF, 0x00]) =
     Inl (Error ''invalid-parameter'')"
  by (simp add: getDecryptCredential_def computeSecret_def Let_def slice1_def slice2_def)

text \<open>
  C7. The claim: \<^verbatim>\<open>verify\<close>, on an instance that holds a key, returns
  \<^verbatim>\<open>false\<close> for a malformed signature and never throws, exceptions of the
  verification being caught. The code does not: on an instance that has the method,
  every call throws a \<^verbatim>\<open>ReferenceError\<close>, whatever the digest and the signature.
  The type check reads \<^verbatim>\<open>$\<close>, which is bound nowhere, and it stands before the
  \<^verbatim>\<open>try\<close> whose handler returns \<^verbatim>\<open>false\<close>.
\<close>

theorem ec_verify_throws_before_try:
  "''verify'' \<in> ec_methods self \<Longrightarrow>
   call_ec_verify L self digestBuffer signatureBuffer = Inl (ReferenceError ''$'')"
  by (simp add: call_ec_verify_def ec_verify_def dollar_isBuffer_def)

theorem ec_verify_throws_before_try_witness:
  "''verify'' \<in> ec_methods ref_ec_public \<and>
   call_ec_verify ref_ec_lib ref_ec_public (JBuffer [9]) (JBuffer [1, 2]) =
     Inl (ReferenceError ''$'')"
proof -
  have m: "''verify'' \<in> ec_methods ref_ec_public"
    by (simp add: ref_ec_public_def initWithPublicKey_def init_def)
  from ec_verify_throws_before_try [OF m, of ref_ec_lib "JBuffer [9]" "JBuffer [1, 2]"] m
  show ?thesis by simp
qed

section \<open>Identities\<close>

lemma replicate_4: "replicate 4 x = [x, x, x, x]"
  by (simp add: numeral_eq_Suc)

lemma subjectRule_alice: "subjectRule ''alice 0001''"
  by (simp add: subjectRule_def subjectChar_def)

lemma generate_alice:
  "generate ref_lib ''alice 0001'' \<lparr>opt_algorithm = None, opt_overrideSecret = None\<rparr> 0 = Inr alice"
  by (simp add: generate_def subjectRule_alice ref_lib_def ref_getDef_def defaultAlgorithmName_def
      asym_setPrivateKey_def ref_publicOfSecret_def ref_asym_sign_def getID_def initialize_def
      alice_def Let_def replicate_4)

text \<open>
  C6. The claim: \<^verbatim>\<open>generate\<close> falls back to the default algorithm when the caller
  names an unknown algorithm, and still produces a private-capable identity. The code
  does so only when the option is left out (\<open>generate_default_algorithm\<close>). For a
  subject that passes the rule and an algorithm name that \<^verbatim>\<open>getDef\<close> does not know,
  \<^verbatim>\<open>generate\<close> throws a \<^verbatim>\<open>ReferenceError\<close>: the fallback branch reads
  \<^verbatim>\<open>defaults.algorithmName\<close>, and the file binds \<^verbatim>\<open>config\<close>, not
  \<^verbatim>\<open>defaults\<close>.
\<close>

theorem generate_unknown_algorithm_throws:
  assumes "subjectRule subject" and "opt_algorithm opts = Some a" and "a \<noteq> []"
    and "getDef L a = None"
  shows "generate L subject opts seed = Inl (ReferenceError ''defaults'')"
  using assms by (simp add: generate_def Let_def)

theorem generate_unknown_algorithm_throws_witness:
  "subjectRule ''alice 0001'' \<and> getDef ref_lib ''RSA'' = None \<and>
   generate ref_lib ''alice 0001'' \<lparr>opt_algorithm = Some ''RSA'', opt_overrideSecret = None\<rparr> 0 =
     Inl (ReferenceError ''defaults'')"
proof -
  have g: "getDef ref_lib ''RSA'' = None" by (simp add: ref_lib_def ref_getDef_def)
  from generate_unknown_algorithm_throws [OF subjectRule_alice _ _ g,
      of "\<lparr>opt_algorithm = Some ''RSA'', opt_overrideSecret = None\<rparr>" 0]
  have "generate ref_lib ''alice 0001'' \<lparr>opt_algorithm = Some ''RSA'', opt_overrideSecret = None\<rparr> 0 =
     Inl (ReferenceError ''defaults'')" by simp
  with subjectRule_alice g show ?thesis by simp
qed

lemma generate_holdsPrivateKey:
  assumes "generate L subject opts seed = Inr i"
  shows "holdsPrivateKey L i"
  using assms
  by (auto simp: generate_def Let_def initialize_def holdsPrivateKey_def asym_setPrivateKey_def
      split: if_splits option.splits sum.splits)

lemma generate_default_algorithm:
  assumes "generate L subject opts seed = Inr i" and "\<not> str_truthy (opt_algorithm opts)"
  shows "algorithmName i = defaultAlgorithmName \<and> isPrivate i"
  using assms
  by (cases "opt_algorithm opts")
     (auto simp: generate_def Let_def initialize_def isPrivate_def
       split: if_splits option.splits sum.splits)

text \<open>
  C10. With a codec that reads back what it wrote: for every identity (a generated one
  in particular), the buffer that \<^verbatim>\<open>exportPublic\<close> returns deserializes to a record
  whose secret field is the empty byte sequence, and \<^verbatim>\<open>canLoadPrivate\<close> returns
  \<^verbatim>\<open>true\<close> on it: the empty \<^verbatim>\<open>ArrayBuffer\<close> is not \<^verbatim>\<open>null\<close>.
\<close>

theorem canLoadPrivate_of_exportPublic:
  assumes "identity_codec_ok L" and "exportPublic L i = Inr b"
  shows "\<exists>d. identity_deserialize L b = Inr d \<and> r_secret d = [] \<and>
             canLoadPrivate L (JArrayBuffer b) = Inr True"
proof -
  let ?r = "\<lparr>r_subject = subjectBuf i, r_algorithm = algorithmName i,
             r_public = publicKeyBuf i, r_secret = [], r_signature = signatureBuf i\<rparr>"
  from assms(2) have "identity_serialize L ?r = Inr b" by (simp add: exportPublic_def)
  with assms(1) have "identity_deserialize L b = Inr ?r"
    unfolding identity_codec_ok_def by blast
  then show ?thesis by (simp add: canLoadPrivate_def)
qed

lemma loadIdentityBuf_pin:
  assumes "identity_deserialize L b = Inr d" and "isArrayBuffer pinkeyBuf"
    and "subjectRule (decode_ascii L (r_subject d))"
  shows "loadIdentityBuf L (JArrayBuffer b) pinkeyBuf =
     (case sym_decrypt L pinkeyBuf (r_secret d) of
        Inl e \<Rightarrow> Inl (Error ''enigma-invalid-pinkey'')
      | Inr secretB \<Rightarrow>
          (case asym_publicOfSecret L (r_algorithm d) secretB of
             Inl e \<Rightarrow> Inl e
           | Inr pub \<Rightarrow>
               if pub \<noteq> r_public d then Inl (Error ''enigma-identity-inconsistent'')
               else
                 (case asym_verify L
                         \<lparr>c_alg = r_algorithm d, c_public = pub, c_secret = Some secretB\<rparr>
                         (getID L (r_public d) (r_subject d)) (r_signature d) of
                    Inl e \<Rightarrow> Inl (Error ''enigma-identity-bad-self-signature'')
                  | Inr v \<Rightarrow>
                      if \<not> truthy v then Inl (Error ''enigma-identity-bad-self-signature'')
                      else Inr \<lparr>subjectBuf = r_subject d, secretBuf = Some secretB,
                                publicKeyBuf = r_public d, algorithmName = r_algorithm d,
                                signatureBuf = r_signature d,
                                asymCipher = \<lparr>c_alg = r_algorithm d, c_public = pub,
                                               c_secret = Some secretB\<rparr>,
                                prv = False\<rparr>)))"
proof -
  from assms(2) have t: "truthy pinkeyBuf" by (cases pinkeyBuf) simp_all
  show ?thesis
    using assms t
    by (simp add: loadIdentityBuf_def asym_setPrivateKey_def split: sum.splits)
qed

lemma loadPrivate_success:
  assumes "loadPrivate L bufv pinkeyBuf = Inr i" and "truthy pinkeyBuf"
  shows "\<exists>b d sec. bufv = JArrayBuffer b \<and> identity_deserialize L b = Inr d \<and>
           sym_decrypt L pinkeyBuf (r_secret d) = Inr sec \<and>
           asym_publicOfSecret L (r_algorithm d) sec = Inr (r_public d) \<and>
           secretBuf i = Some sec \<and> publicKeyBuf i = r_public d \<and>
           algorithmName i = r_algorithm d \<and> holdsPrivateKey L i"
proof -
  from assms(1) obtain i0 where i0: "loadIdentityBuf L bufv pinkeyBuf = Inr i0"
    and i: "i = initialize i0 True"
    by (auto simp: loadPrivate_def split: sum.splits)
  from i0 obtain b where b: "bufv = JArrayBuffer b"
    by (cases bufv) (simp_all add: loadIdentityBuf_def)
  from i0 b assms(2) have ab: "isArrayBuffer pinkeyBuf"
    by (auto simp: loadIdentityBuf_def split: if_splits)
  from i0 b obtain d where d: "identity_deserialize L b = Inr d"
    by (auto simp: loadIdentityBuf_def split: if_splits sum.splits)
  from i0 b d have sr: "subjectRule (decode_ascii L (r_subject d))"
    by (auto simp: loadIdentityBuf_def split: if_splits)
  from i0 [unfolded b loadIdentityBuf_pin [OF d ab sr]] i d b
  show ?thesis
    by (auto simp: initialize_def holdsPrivateKey_def split: sum.splits if_splits)
qed

lemma loadPrivate_secret_matches:
  assumes "loadPrivate L bufv pinkeyBuf = Inr i" and "secretBuf i = Some sec"
  shows "asym_publicOfSecret L (algorithmName i) sec = Inr (publicKeyBuf i)"
proof (cases "truthy pinkeyBuf")
  case True
  from loadPrivate_success [OF assms(1) True] assms(2) show ?thesis by auto
next
  case False
  with assms show ?thesis
    by (auto simp: loadPrivate_def loadIdentityBuf_def initialize_def
        split: sum.splits if_splits jsval.splits)
qed

text \<open>
  C3. \<^verbatim>\<open>loadPrivate\<close> on a buffer that deserializes to a record with a valid
  subject, with a pin key that is an \<^verbatim>\<open>ArrayBuffer\<close>: when the symmetric decryption
  of the stored secret throws, the call fails with \<^verbatim>\<open>enigma-invalid-pinkey\<close>; when
  it returns a secret whose derived public key differs from the stored one, the call
  fails with \<^verbatim>\<open>enigma-identity-inconsistent\<close>. Whenever \<^verbatim>\<open>loadPrivate\<close>
  returns, a secret that the identity holds derives the stored public key; with a pin
  key supplied, the identity holds the secret unwrapped from the buffer under that key.
\<close>

theorem loadPrivate_checks_pin_key_and_public_key:
  "(\<forall>b d e. identity_deserialize L b = Inr d \<longrightarrow> isArrayBuffer pinkeyBuf \<longrightarrow>
      subjectRule (decode_ascii L (r_subject d)) \<longrightarrow>
      sym_decrypt L pinkeyBuf (r_secret d) = Inl e \<longrightarrow>
      loadPrivate L (JArrayBuffer b) pinkeyBuf = Inl (Error ''enigma-invalid-pinkey'')) \<and>
   (\<forall>b d sec pub. identity_deserialize L b = Inr d \<longrightarrow> isArrayBuffer pinkeyBuf \<longrightarrow>
      subjectRule (decode_ascii L (r_subject d)) \<longrightarrow>
      sym_decrypt L pinkeyBuf (r_secret d) = Inr sec \<longrightarrow>
      asym_publicOfSecret L (r_algorithm d) sec = Inr pub \<longrightarrow> pub \<noteq> r_public d \<longrightarrow>
      loadPrivate L (JArrayBuffer b) pinkeyBuf = Inl (Error ''enigma-identity-inconsistent'')) \<and>
   (\<forall>bufv i. loadPrivate L bufv pinkeyBuf = Inr i \<longrightarrow>
      (\<forall>sec. secretBuf i = Some sec \<longrightarrow>
         asym_publicOfSecret L (algorithmName i) sec = Inr (publicKeyBuf i)) \<and>
      (truthy pinkeyBuf \<longrightarrow>
         (\<exists>b d sec. bufv = JArrayBuffer b \<and> identity_deserialize L b = Inr d \<and>
            sym_decrypt L pinkeyBuf (r_secret d) = Inr sec \<and>
            asym_publicOfSecret L (r_algorithm d) sec = Inr (r_public d) \<and>
            secretBuf i = Some sec \<and> publicKeyBuf i = r_public d)))"
proof (intro conjI allI impI)
  fix b d e
  assume "identity_deserialize L b = Inr d" "isArrayBuffer pinkeyBuf"
    "subjectRule (decode_ascii L (r_subject d))" "sym_decrypt L pinkeyBuf (r_secret d) = Inl e"
  then show "loadPrivate L (JArrayBuffer b) pinkeyBuf = Inl (Error ''enigma-invalid-pinkey'')"
    by (simp add: loadPrivate_def loadIdentityBuf_pin)
next
  fix b d sec pub
  assume "identity_deserialize L b = Inr d" "isArrayBuffer pinkeyBuf"
    "subjectRule (decode_ascii L (r_subject d))" "sym_decrypt L pinkeyBuf (r_secret d) = Inr sec"
    "asym_publicOfSecret L (r_algorithm d) sec = Inr pub" "pub \<noteq> r_public d"
  then show "loadPrivate L (JArrayBuffer b) pinkeyBuf = Inl (Error ''enigma-identity-inconsistent'')"
    by (simp add: loadPrivate_def loadIdentityBuf_pin)
next
  fix bufv i sec
  assume "loadPrivate L bufv pinkeyBuf = Inr i" "secretBuf i = Some sec"
  then show "asym_publicOfSecret L (algorithmName i) sec = Inr (publicKeyBuf i)"
    by (rule loadPrivate_secret_matches)
next
  fix bufv i
  assume "loadPrivate L bufv pinkeyBuf = Inr i" "truthy pinkeyBuf"
  from loadPrivate_success [OF this]
  show "\<exists>b d sec. bufv = JArrayBuffer b \<and> identity_deserialize L b = Inr d \<and>
            sym_decrypt L pinkeyBuf (r_secret d) = Inr sec \<and>
            asym_publicOfSecret L (r_algorithm d) sec = Inr (r_public d) \<and>
            secretBuf i = Some sec \<and> publicKeyBuf i = r_public d"
    by blast
qed

lemma ascii_roundtrip_alice:
  "map (\<lambda>x. char_of (unat (x :: byte))) (map (\<lambda>c. of_nat (of_char c)) ''alice 0001'') =
     ''alice 0001''"
  by code_simp

lemma ascii_alice:
  "decode_ascii ref_lib (subjectBuf alice) = ''alice 0001''"
  unfolding ref_lib_def alice_def by (simp only: lib.simps identity.simps ascii_roundtrip_alice)

lemma alice_file_deserialize:
  "identity_deserialize ref_lib (alice_file pub wrapped) = Inr (alice_stored pub wrapped)"
proof -
  have "ref_identity_serialize (alice_stored pub wrapped) = Inr (alice_file pub wrapped)"
    by (simp add: ref_identity_serialize_def alice_stored_def alice_file_def)
  from ref_identity_roundtrip [OF this] show ?thesis by (simp add: ref_lib_def)
qed

lemma alice_stored_subject:
  "subjectRule (decode_ascii ref_lib (r_subject (alice_stored pub wrapped)))"
  by (simp add: alice_stored_def ascii_alice subjectRule_alice)

lemma loadPrivate_alice:
  "loadPrivate ref_lib (JArrayBuffer (alice_file [8, 8, 8, 8] (enc_bytes [1] @ [7, 7, 7, 7])))
     (JArrayBuffer [1]) = Inr alice"
proof -
  have pin: "isArrayBuffer (JArrayBuffer [1])" by simp
  note l = loadIdentityBuf_pin [OF alice_file_deserialize pin alice_stored_subject]
  show ?thesis
    unfolding loadPrivate_def l
    by (simp add: alice_stored_def ref_lib_def ref_sym_decrypt_def dec_enc_bytes
        ref_publicOfSecret_def ref_asym_verify_def getID_def initialize_def alice_def)
qed

theorem loadPrivate_checks_pin_key_and_public_key_witness:
  "loadPrivate ref_lib (JArrayBuffer (alice_file [8, 8, 8, 8] (enc_bytes [2] @ [7, 7, 7, 7])))
     (JArrayBuffer [1]) = Inl (Error ''enigma-invalid-pinkey'') \<and>
   loadPrivate ref_lib (JArrayBuffer (alice_file [9, 9, 9, 9] (enc_bytes [1] @ [7, 7, 7, 7])))
     (JArrayBuffer [1]) = Inl (Error ''enigma-identity-inconsistent'') \<and>
   loadPrivate ref_lib (JArrayBuffer (alice_file [8, 8, 8, 8] (enc_bytes [1] @ [7, 7, 7, 7])))
     (JArrayBuffer [1]) = Inr alice \<and>
   secretBuf alice = Some [7, 7, 7, 7] \<and>
   asym_publicOfSecret ref_lib (algorithmName alice) [7, 7, 7, 7] = Inr (publicKeyBuf alice)"
proof -
  note main = loadPrivate_checks_pin_key_and_public_key [of ref_lib "JArrayBuffer [1]"]
  have pin: "isArrayBuffer (JArrayBuffer [1])" by simp
  have wrong: "sym_decrypt ref_lib (JArrayBuffer [1])
                 (r_secret (alice_stored [8, 8, 8, 8] (enc_bytes [2] @ [7, 7, 7, 7]))) =
               Inl (Error ''decrypt'')"
    by (simp add: alice_stored_def ref_lib_def ref_sym_decrypt_def dec_enc_bytes)
  have right: "sym_decrypt ref_lib (JArrayBuffer [1])
                 (r_secret (alice_stored [9, 9, 9, 9] (enc_bytes [1] @ [7, 7, 7, 7]))) =
               Inr [7, 7, 7, 7]"
    by (simp add: alice_stored_def ref_lib_def ref_sym_decrypt_def dec_enc_bytes)
  have derived: "asym_publicOfSecret ref_lib
                   (r_algorithm (alice_stored [9, 9, 9, 9] (enc_bytes [1] @ [7, 7, 7, 7])))
                   [7, 7, 7, 7] = Inr [8, 8, 8, 8]"
    by (simp add: alice_stored_def ref_lib_def ref_publicOfSecret_def)
  have differs: "[8, 8, 8, 8] \<noteq> r_public (alice_stored [9, 9, 9, 9] (enc_bytes [1] @ [7, 7, 7, 7]))"
    by (simp add: alice_stored_def)
  from main alice_file_deserialize pin alice_stored_subject wrong
  have a: "loadPrivate ref_lib
             (JArrayBuffer (alice_file [8, 8, 8, 8] (enc_bytes [2] @ [7, 7, 7, 7])))
             (JArrayBuffer [1]) = Inl (Error ''enigma-invalid-pinkey'')"
    by blast
  from main alice_file_deserialize pin alice_stored_subject right derived differs
  have b: "loadPrivate ref_lib
             (JArrayBuffer (alice_file [9, 9, 9, 9] (enc_bytes [1] @ [7, 7, 7, 7])))
             (JArrayBuffer [1]) = Inl (Error ''enigma-identity-inconsistent'')"
    by blast
  have s: "secretBuf alice = Some [7, 7, 7, 7]" by (simp add: alice_def)
  from main loadPrivate_alice s
  have c: "asym_publicOfSecret ref_lib (algorithmName alice) [7, 7, 7, 7] = Inr (publicKeyBuf alice)"
    by blast
  from a b loadPrivate_alice s c show ?thesis by blast
qed

theorem canLoadPrivate_of_exportPublic_witness:
  "generate ref_lib ''alice 0001'' \<lparr>opt_algorithm = None, opt_overrideSecret = None\<rparr> 0 =
     Inr alice \<and>
   exportPublic ref_lib alice = Inr (alice_file [8, 8, 8, 8] []) \<and>
   canLoadPrivate ref_lib (JArrayBuffer (alice_file [8, 8, 8, 8] [])) = Inr True"
proof -
  have e: "exportPublic ref_lib alice = Inr (alice_file [8, 8, 8, 8] [])"
    by (simp add: exportPublic_def ref_lib_def ref_identity_serialize_def alice_file_def alice_def)
  from canLoadPrivate_of_exportPublic [OF ref_identity_codec_ok e] generate_alice e
  show ?thesis by blast
qed

section \<open>Messages\<close>

lemma write_written:
  assumes "call_write L new_message plaintext cs = Inr s"
  shows "written s" and "signers s = []" and "receivers s = []"
    and "clearSign s = (cs = JBool True)" and "plaintextBuf s = plaintext"
    and "signatures s = []" and "decryptors s = []"
    and "mainKeyBuf s = JArrayBuffer (srand_bytes L 64)" and "isArrayBuffer plaintext"
  using assms
  by (auto simp: call_write_def message_write_def new_message_def written_def Let_def
      split: if_splits)

lemma sign_step:
  assumes "written s" and "call_sign L s i seed = Inr s'"
  shows "written s'" and "length (signers s') = Suc (length (signers s))"
    and "receivers s' = receivers s" and "clearSign s' = clearSign s"
  using assms
  by (auto simp: call_sign_def message_sign_def written_def Let_def
      split: if_splits sum.splits)

lemma encrypt_step:
  assumes "written s" and "call_encrypt L s i seed = Inr s'"
  shows "written s'" and "length (receivers s') = Suc (length (receivers s))"
    and "signers s' = signers s" and "clearSign s' = clearSign s"
  using assms
  by (auto simp: call_encrypt_def message_encrypt_def written_def Let_def
      split: if_splits sum.splits)

lemma do_call_step:
  assumes "written s" and "do_call L s c = Inr s'"
  shows "written s'"
    and "length (signers s') = length (signers s) + (if isSign c then 1 else 0)"
    and "length (receivers s') = length (receivers s) + (if isSign c then 0 else 1)"
    and "clearSign s' = clearSign s"
  using assms sign_step [of s L _ _ s'] encrypt_step [of s L _ _ s']
  by (cases c; simp)+

lemma run_calls_written:
  assumes "written s" and "run_calls L s cs = Inr s'"
  shows "written s' \<and>
         length (signers s') = length (signers s) + length (filter isSign cs) \<and>
         length (receivers s') = length (receivers s) + length (filter (\<lambda>c. \<not> isSign c) cs) \<and>
         clearSign s' = clearSign s"
  using assms
proof (induction cs arbitrary: s)
  case Nil
  then show ?case by simp
next
  case (Cons c cs)
  then obtain s1 where s1: "do_call L s c = Inr s1" and r: "run_calls L s1 cs = Inr s'"
    by (auto split: sum.splits)
  from do_call_step [OF Cons.prems(1) s1] Cons.IH [OF _ r]
  show ?case by (cases "isSign c") simp_all
qed

lemma attempt_calls_written:
  assumes "written s" and "attempt_calls L s cs = (s', n)"
  shows "written s' \<and>
         length (signers s') + length (receivers s') =
           length (signers s) + length (receivers s) + n \<and>
         clearSign s' = clearSign s \<and>
         ((\<forall>c\<in>set cs. \<not> isSign c) \<longrightarrow> signers s' = signers s)"
  using assms
proof (induction cs arbitrary: s n)
  case Nil
  then show ?case by simp
next
  case (Cons c cs)
  show ?case
  proof (cases "do_call L s c")
    case (Inl e)
    with Cons.prems have "attempt_calls L s cs = (s', n)" by simp
    from Cons.IH [OF Cons.prems(1) this] show ?thesis by simp
  next
    case (Inr s1)
    with Cons.prems obtain m where a: "attempt_calls L s1 cs = (s', m)" and n: "n = Suc m"
      by (auto split: prod.splits)
    note st = do_call_step [OF Cons.prems(1) Inr]
    have sg: "\<not> isSign c \<Longrightarrow> signers s1 = signers s"
      using Inr encrypt_step(3) [OF Cons.prems(1)] by (cases c) auto
    from Cons.IH [OF st(1) a] st n sg show ?thesis by (cases "isSign c") simp_all
  qed
qed

lemma clearsign_no_encrypt:
  assumes "written s" and "clearSign s" and "attempt_calls L s cs = (s', n)"
    and "\<forall>c\<in>set cs. \<not> isSign c"
  shows "n = 0 \<and> s' = s"
  using assms
proof (induction cs arbitrary: n)
  case Nil
  then show ?case by simp
next
  case (Cons c cs)
  from Cons.prems(4) obtain i seed where c: "c = Encrypt i seed" by (cases c) auto
  have "do_call L s c = Inl (TypeError ''encrypt'')"
    using Cons.prems(1,2) by (simp add: c call_encrypt_def written_def)
  with Cons show ?case by simp
qed

text \<open>
  C8. A message is written, and the caller makes any sequence of \<^verbatim>\<open>sign\<close> and
  \<^verbatim>\<open>encrypt\<close> calls, of which \<open>n\<close> return and the others throw. Then
  \<^verbatim>\<open>done\<close> is a method of the message exactly when \<open>n\<close> is positive, that is,
  when at least one signer or receiver has been recorded. If the message was begun with
  \<^verbatim>\<open>clearsign\<close> true and \<^verbatim>\<open>sign\<close> is never called, no call returns
  (\<^verbatim>\<open>encrypt\<close> is not installed) and calling \<^verbatim>\<open>done\<close> throws a
  \<^verbatim>\<open>TypeError\<close> and leaves the message as it is.
\<close>

theorem done_available_after_first_sign_or_encrypt:
  assumes "call_write L new_message plaintext cs = Inr s0"
    and "attempt_calls L s0 calls = (s, n)"
  shows "(''done'' \<in> methods s \<longleftrightarrow> 0 < n) \<and>
         (0 < n \<longleftrightarrow> signers s \<noteq> [] \<or> receivers s \<noteq> []) \<and>
         (cs = JBool True \<longrightarrow> (\<forall>c\<in>set calls. \<not> isSign c) \<longrightarrow>
            n = 0 \<and> call_done L s = (Inl (TypeError ''done''), s))"
proof -
  note w = write_written [OF assms(1)]
  from attempt_calls_written [OF w(1) assms(2)] w(2,3)
  have inv: "written s" and len: "length (signers s) + length (receivers s) = n"
    by simp_all
  have a: "0 < n \<longleftrightarrow> signers s \<noteq> [] \<or> receivers s \<noteq> []"
    using len by auto
  have b: "''done'' \<in> methods s \<longleftrightarrow> 0 < n"
    using inv a by (simp add: written_def)
  have c: "n = 0 \<and> call_done L s = (Inl (TypeError ''done''), s)"
    if "cs = JBool True" and "\<forall>c\<in>set calls. \<not> isSign c"
  proof -
    from that(1) w(4) have "clearSign s0" by simp
    from clearsign_no_encrypt [OF w(1) this assms(2) that(2)] have "n = 0" by simp
    with b show ?thesis by (simp add: call_done_def)
  qed
  from a b c show ?thesis by blast
qed

text \<open>
  C9. A message is written and a sequence of \<^verbatim>\<open>sign\<close> and \<^verbatim>\<open>encrypt\<close> calls
  has returned. Then at most 255 of them are \<^verbatim>\<open>sign\<close> calls and at most 255 are
  \<^verbatim>\<open>encrypt\<close> calls, each call that returned has appended exactly one entry, after 255
  \<^verbatim>\<open>sign\<close> calls the next \<^verbatim>\<open>sign\<close> call throws a \<^verbatim>\<open>TypeError\<close> (the
  method has been deleted) and after 255 \<^verbatim>\<open>encrypt\<close> calls the next
  \<^verbatim>\<open>encrypt\<close> call does; before that the methods are still there.
\<close>

theorem sign_and_encrypt_stop_at_255:
  assumes "call_write L new_message plaintext cs = Inr s0"
    and "run_calls L s0 calls = Inr s"
  shows "length (filter isSign calls) \<le> 255 \<and>
         length (filter (\<lambda>c. \<not> isSign c) calls) \<le> 255 \<and>
         length (signers s) = length (filter isSign calls) \<and>
         length (receivers s) = length (filter (\<lambda>c. \<not> isSign c) calls) \<and>
         (length (filter isSign calls) = 255 \<longrightarrow>
            call_sign L s i seed = Inl (TypeError ''sign'')) \<and>
         (length (filter isSign calls) < 255 \<longrightarrow> ''sign'' \<in> methods s) \<and>
         (length (filter (\<lambda>c. \<not> isSign c) calls) = 255 \<longrightarrow>
            call_encrypt L s i seed = Inl (TypeError ''encrypt'')) \<and>
         (length (filter (\<lambda>c. \<not> isSign c) calls) < 255 \<longrightarrow> cs \<noteq> JBool True \<longrightarrow>
            ''encrypt'' \<in> methods s)"
proof -
  note w = write_written [OF assms(1)]
  from run_calls_written [OF w(1) assms(2)] w(2,3,4)
  have inv: "written s" and ls: "length (signers s) = length (filter isSign calls)"
    and lr: "length (receivers s) = length (filter (\<lambda>c. \<not> isSign c) calls)"
    and c: "clearSign s = (cs = JBool True)"
    by simp_all
  have b: "length (signers s) \<le> 255" "length (receivers s) \<le> 255"
    using inv by (simp_all add: written_def)
  have s255: "call_sign L s i seed = Inl (TypeError ''sign'')" if "length (signers s) = 255"
    using inv that by (simp add: call_sign_def written_def)
  have e255: "call_encrypt L s i seed = Inl (TypeError ''encrypt'')"
    if "length (receivers s) = 255"
    using inv that by (simp add: call_encrypt_def written_def)
  have sa: "''sign'' \<in> methods s" if "length (signers s) < 255"
    using inv that by (simp add: written_def)
  have ea: "''encrypt'' \<in> methods s" if "length (receivers s) < 255" "cs \<noteq> JBool True"
    using inv that c by (simp add: written_def)
  from b s255 e255 sa ea show ?thesis unfolding ls lr by blast
qed

lemma lookupFingerprint_found:
  "fp \<in> set xs \<Longrightarrow>
   \<exists>k. lookupFingerprint fp xs n = Some (n + k) \<and> k < length xs \<and> xs ! k = fp"
proof (induction xs arbitrary: n)
  case Nil
  then show ?case by simp
next
  case (Cons x xs)
  show ?case
  proof (cases "fp = x")
    case True
    then show ?thesis by (intro exI [of _ 0]) simp
  next
    case False
    with Cons.prems have "fp \<in> set xs" by simp
    from Cons.IH [OF this, of "Suc n"] obtain k
      where "lookupFingerprint fp xs (Suc n) = Some (Suc n + k)" "k < length xs" "xs ! k = fp"
      by blast
    with False show ?thesis by (intro exI [of _ "Suc k"]) simp
  qed
qed

lemma lookupFingerprint_none:
  "fp \<notin> set xs \<Longrightarrow> lookupFingerprint fp xs n = None"
  by (induction xs arbitrary: n) auto

lemma do_call_lists:
  assumes "do_call L s c = Inr s'"
    and "length (receivers s) = length (decryptors s)"
    and "length (signers s) = length (signatures s)"
  shows "length (receivers s') = length (decryptors s')"
    and "length (signers s') = length (signatures s')"
    and "plaintextBuf s' = plaintextBuf s" and "mainKeyBuf s' = mainKeyBuf s"
    and "set (zip (receivers s') (decryptors s')) \<subseteq>
           set (zip (receivers s) (decryptors s)) \<union> {e. wrapsFor L (mainKeyBuf s) [c] e}"
    and "set (receivers s) \<subseteq> set (receivers s')"
    and "\<not> isSign c \<Longrightarrow> (case c of Encrypt i seed \<Rightarrow> getFingerprint L i | _ \<Rightarrow> []) \<in> set (receivers s')"
  using assms
  by (cases c;
      auto simp: call_sign_def message_sign_def call_encrypt_def message_encrypt_def Let_def
        wrapsFor_def split: if_splits sum.splits)+

lemma run_calls_lists:
  assumes "run_calls L s cs = Inr s'"
    and "length (receivers s) = length (decryptors s)"
    and "length (signers s) = length (signatures s)"
  shows "length (receivers s') = length (decryptors s') \<and>
         length (signers s') = length (signatures s') \<and>
         plaintextBuf s' = plaintextBuf s \<and> mainKeyBuf s' = mainKeyBuf s \<and>
         set (zip (receivers s') (decryptors s')) \<subseteq>
           set (zip (receivers s) (decryptors s)) \<union> {e. wrapsFor L (mainKeyBuf s) cs e} \<and>
         set (receivers s) \<subseteq> set (receivers s') \<and>
         (\<forall>i seed. Encrypt i seed \<in> set cs \<longrightarrow> getFingerprint L i \<in> set (receivers s'))"
  using assms
proof (induction cs arbitrary: s)
  case Nil
  then show ?case by simp
next
  case (Cons c cs)
  then obtain s1 where s1: "do_call L s c = Inr s1" and r: "run_calls L s1 cs = Inr s'"
    by (auto split: sum.splits)
  note st = do_call_lists [OF s1 Cons.prems(2,3)]
  note ih = Cons.IH [OF r st(1,2)]
  have z: "set (zip (receivers s') (decryptors s')) \<subseteq>
           set (zip (receivers s) (decryptors s)) \<union> {e. wrapsFor L (mainKeyBuf s) (c # cs) e}"
  proof
    fix e assume "e \<in> set (zip (receivers s') (decryptors s'))"
    with ih have "e \<in> set (zip (receivers s1) (decryptors s1)) \<or> wrapsFor L (mainKeyBuf s1) cs e"
      by blast
    then show "e \<in> set (zip (receivers s) (decryptors s)) \<union> {e. wrapsFor L (mainKeyBuf s) (c # cs) e}"
    proof
      assume "e \<in> set (zip (receivers s1) (decryptors s1))"
      with st(5) have "e \<in> set (zip (receivers s) (decryptors s)) \<or> wrapsFor L (mainKeyBuf s) [c] e"
        by blast
      then show ?thesis by (auto simp: wrapsFor_def)
    next
      assume "wrapsFor L (mainKeyBuf s1) cs e"
      then show ?thesis using st(4) by (auto simp: wrapsFor_def)
    qed
  qed
  have f: "getFingerprint L i \<in> set (receivers s')" if "Encrypt i seed \<in> set (c # cs)" for i seed
  proof (cases "c = Encrypt i seed")
    case True
    with st(7) have "getFingerprint L i \<in> set (receivers s1)" by simp
    with ih show ?thesis by blast
  next
    case False
    with that have "Encrypt i seed \<in> set cs" by simp
    with ih show ?thesis by blast
  qed
  from ih st z f show ?case by auto
qed

lemma done_clear:
  assumes "clearSign s" and "call_done L s = (Inr out, s2)"
  shows "payload_serialize L (signers s) (signatures s) (plaintextBuf s) = Inr out"
  using assms
  by (auto simp: call_done_def message_done_def Let_def split: if_splits sum.splits)

lemma done_envelope:
  assumes "\<not> clearSign s" and "call_done L s = (Inr out, s2)"
  shows "\<exists>pb cb eb.
           payload_serialize L (signers s) (signatures s) (plaintextBuf s) = Inr pb \<and>
           compress L pb = Inr cb \<and>
           (if length (decryptors s) > 0
            then sym_encrypt L (mainKeyBuf s) (JArrayBuffer cb) = Inr eb else eb = cb) \<and>
           envelope_serialize L
             \<lparr>e_compression = CompLzw, e_receivers = receivers s,
              e_decryptors = decryptors s, e_payload = eb\<rparr> = Inr out"
  using assms
  by (auto simp: call_done_def message_done_def Let_def split: if_splits sum.splits)

lemma unpack_lzw:
  assumes "payloadCompression m = Some CompLzw"
    and "decompress L (payloadBuf m) = Inr pb"
    and "payload_deserialize L pb = Inr \<lparr>p_signers = sg, p_signatures = sig, p_content = c\<rparr>"
    and "length sg = length sig"
  shows "\<exists>s. continueUnpackPayload L m = Inr s \<and> plaintextBuf s = JArrayBuffer c \<and>
             ''getPlaintext'' \<in> methods s"
  using assms by (simp add: continueUnpackPayload_def Let_def)

lemma unpack_plain:
  assumes "payloadCompression m = Some CompFalse"
    and "payload_deserialize L (payloadBuf m) =
           Inr \<lparr>p_signers = sg, p_signatures = sig, p_content = c\<rparr>"
    and "length sg = length sig"
  shows "\<exists>s. continueUnpackPayload L m = Inr s \<and> plaintextBuf s = JArrayBuffer c \<and>
             ''getPlaintext'' \<in> methods s"
  using assms by (simp add: continueUnpackPayload_def Let_def)

lemma clearsign_run_calls:
  assumes "written s" and "clearSign s" and "run_calls L s cs = Inr s'"
  shows "filter (\<lambda>c. \<not> isSign c) cs = []"
  using assms
proof (induction cs arbitrary: s)
  case Nil
  then show ?case by simp
next
  case (Cons c cs)
  then obtain s1 where s1: "do_call L s c = Inr s1" and r: "run_calls L s1 cs = Inr s'"
    by (auto split: sum.splits)
  have c: "isSign c"
  proof (cases c)
    case (Sign i seed)
    then show ?thesis by simp
  next
    case (Encrypt i seed)
    with Cons.prems(1,2) have "do_call L s c = Inl (TypeError ''encrypt'')"
      by (simp add: call_encrypt_def written_def)
    with s1 show ?thesis by simp
  qed
  note st = do_call_step [OF Cons.prems(1) s1]
  from Cons.IH [OF st(1) _ r] st(4) Cons.prems(2) c show ?case by simp
qed

lemma read_plain:
  assumes "\<exists>e. envelope_deserialize L out = Inl e"
    and "payload_deserialize L out = Inr \<lparr>p_signers = sg, p_signatures = sig, p_content = c\<rparr>"
    and "length sg = length sig"
  shows "\<exists>s. call_read L new_message (JArrayBuffer out) = Inr s \<and>
             call_getPlaintext s = Inr (JArrayBuffer c)"
proof -
  let ?m = "new_message\<lparr>payloadCompression := Some CompFalse, payloadBuf := out\<rparr>"
  from unpack_plain [of ?m L sg sig c] assms(2,3)
  obtain s where s: "continueUnpackPayload L ?m = Inr s" "plaintextBuf s = JArrayBuffer c"
    "''getPlaintext'' \<in> methods s" by auto
  with assms(1) show ?thesis
    by (auto simp: call_read_def message_read_def new_message_def call_getPlaintext_def
        getPlaintext_def)
qed

lemma read_unencrypted_envelope:
  assumes "envelope_deserialize L out =
             Inr \<lparr>e_compression = CompLzw, e_receivers = [], e_decryptors = [], e_payload = cb\<rparr>"
    and "decompress L cb = Inr pb"
    and "payload_deserialize L pb = Inr \<lparr>p_signers = sg, p_signatures = sig, p_content = c\<rparr>"
    and "length sg = length sig"
  shows "\<exists>s. call_read L new_message (JArrayBuffer out) = Inr s \<and>
             call_getPlaintext s = Inr (JArrayBuffer c)"
proof -
  let ?m = "new_message\<lparr>payloadBuf := cb, payloadCompression := Some CompLzw\<rparr>"
  from unpack_lzw [of ?m L pb sg sig c] assms(2,3,4)
  obtain s where s: "continueUnpackPayload L ?m = Inr s" "plaintextBuf s = JArrayBuffer c"
    "''getPlaintext'' \<in> methods s" by auto
  with assms(1) show ?thesis
    by (auto simp: call_read_def message_read_def new_message_def call_getPlaintext_def
        getPlaintext_def Let_def)
qed

lemma read_encrypted_envelope:
  assumes "envelope_deserialize L out =
             Inr \<lparr>e_compression = CompLzw, e_receivers = rs, e_decryptors = ds, e_payload = eb\<rparr>"
    and "length rs = length ds" and "rs \<noteq> []"
  shows "\<exists>s. call_read L new_message (JArrayBuffer out) = Inr s \<and>
             receivers s = rs \<and> decryptors s = ds \<and> payloadBuf s = eb \<and>
             payloadCompression s = Some CompLzw \<and> ''decrypt'' \<in> methods s"
  using assms
  by (auto simp: call_read_def message_read_def new_message_def Let_def)

lemma decrypt_unpacks:
  assumes "''decrypt'' \<in> methods s" and "payloadCompression s = Some CompLzw"
    and "isPrivate me"
    and "lookupFingerprint (getFingerprint L me) (receivers s) 0 = Some k"
    and "k < length (decryptors s)"
    and "identity_decrypt L me (JArrayBuffer (decryptors s ! k)) = Inr key"
    and "sym_decrypt L (JArrayBuffer key) (payloadBuf s) = Inr cb"
    and "decompress L cb = Inr pb"
    and "payload_deserialize L pb = Inr \<lparr>p_signers = sg, p_signatures = sig, p_content = c\<rparr>"
    and "length sg = length sig"
  shows "\<exists>s'. call_decrypt L s me = Inr s' \<and> call_getPlaintext s' = Inr (JArrayBuffer c)"
proof -
  let ?m = "s\<lparr>payloadBuf := cb\<rparr>"
  from unpack_lzw [of ?m L pb sg sig c] assms(2,8,9,10)
  obtain s1 where s1: "continueUnpackPayload L ?m = Inr s1" "plaintextBuf s1 = JArrayBuffer c"
    "''getPlaintext'' \<in> methods s1" by auto
  with assms(1,3,4,5,6,7) show ?thesis
    by (auto simp: call_decrypt_def message_decrypt_def js_index_def call_getPlaintext_def
        getPlaintext_def)
qed

lemma intendedRecipient_iff:
  "intendedRecipient L cs me \<longleftrightarrow>
     (\<exists>r seed. Encrypt r seed \<in> set cs \<and> getFingerprint L r = getFingerprint L me) \<and>
     (\<forall>r seed. Encrypt r seed \<in> set cs \<longrightarrow> getFingerprint L r = getFingerprint L me \<longrightarrow>
        c_alg (asymCipher r) = c_alg (asymCipher me) \<and>
        c_public (asymCipher r) = c_public (asymCipher me))"
proof -
  have ex: "list_ex (\<lambda>c. case receiverOf c of
                            Some r \<Rightarrow> getFingerprint L r = getFingerprint L me
                          | None \<Rightarrow> False) cs \<longleftrightarrow>
            (\<exists>r seed. Encrypt r seed \<in> set cs \<and> getFingerprint L r = getFingerprint L me)"
  proof (induction cs)
    case Nil
    then show ?case by simp
  next
    case (Cons c cs)
    then show ?case by (cases c) auto
  qed
  have al: "list_all (\<lambda>c. case receiverOf c of
                             Some r \<Rightarrow>
                               getFingerprint L r = getFingerprint L me \<longrightarrow>
                               c_alg (asymCipher r) = c_alg (asymCipher me) \<and>
                               c_public (asymCipher r) = c_public (asymCipher me)
                           | None \<Rightarrow> True) cs \<longleftrightarrow>
            (\<forall>r seed. Encrypt r seed \<in> set cs \<longrightarrow>
               getFingerprint L r = getFingerprint L me \<longrightarrow>
               c_alg (asymCipher r) = c_alg (asymCipher me) \<and>
               c_public (asymCipher r) = c_public (asymCipher me))"
  proof (induction cs)
    case Nil
    then show ?case by simp
  next
    case (Cons c cs)
    then show ?case by (cases c) auto
  qed
  show ?thesis unfolding intendedRecipient_def ex al ..
qed

lemma recipient_unwraps:
  assumes ok: "asymmetric_ok L"
    and hp: "holdsPrivateKey L me"
    and ir: "intendedRecipient L cs me"
    and wf: "wrapsFor L (JArrayBuffer key) cs (getFingerprint L me, ct)"
  shows "identity_decrypt L me (JArrayBuffer ct) = Inr key"
proof -
  from wf obtain i seed where i: "Encrypt i seed \<in> set cs"
    "getFingerprint L i = getFingerprint L me"
    "identity_encrypt L i seed (JArrayBuffer key) = Inr ct"
    by (auto simp: wrapsFor_def)
  from i(3) have enc: "asym_encrypt L (asymCipher i) seed key = Inr ct"
    by (auto simp: identity_encrypt_def split: sum.splits)
  from ir i(1,2) have same: "c_alg (asymCipher i) = c_alg (asymCipher me)"
    "c_public (asymCipher i) = c_public (asymCipher me)"
    by (auto simp: intendedRecipient_iff)
  from hp obtain sec where sec: "c_secret (asymCipher me) = Some sec"
    "asym_publicOfSecret L (c_alg (asymCipher me)) sec = Inr (c_public (asymCipher me))"
    "prv me"
    by (auto simp: holdsPrivateKey_def split: option.splits)
  from ok same sec(1,2) enc have "asym_decrypt L (asymCipher me) ct = Inr key"
    unfolding asymmetric_ok_def by blast
  with sec(3) show ?thesis by (simp add: identity_decrypt_def)
qed

text \<open>
  C1. Given building blocks that meet their contracts: a message is written with the
  plaintext \<open>P\<close>, a sequence of \<^verbatim>\<open>sign\<close> and \<^verbatim>\<open>encrypt\<close> calls returns
  (so there are at most 255 of each), and \<^verbatim>\<open>done\<close> returns the buffer \<open>out\<close>
  (so there is at least one call). Then \<^verbatim>\<open>read\<close> on a new message accepts
  \<open>out\<close>. If there was no \<^verbatim>\<open>encrypt\<close> call, \<^verbatim>\<open>getPlaintext\<close> returns
  \<open>P\<close>. Otherwise \<^verbatim>\<open>decrypt\<close>, called with an identity that holds its private
  key and whose fingerprint is that of a receiver (receivers with that fingerprint having
  its algorithm and public key), returns, and then \<^verbatim>\<open>getPlaintext\<close> returns \<open>P\<close>.
\<close>

theorem message_round_trip:
  assumes codec: "message_codec_ok L" and sym: "symmetric_ok L" and asym: "asymmetric_ok L"
    and w: "call_write L new_message (JArrayBuffer P) cs = Inr s0"
    and r: "run_calls L s0 calls = Inr s1"
    and d: "call_done L s1 = (Inr out, s2)"
  shows "\<exists>s3. call_read L new_message (JArrayBuffer out) = Inr s3 \<and>
           (if filter (\<lambda>c. \<not> isSign c) calls = []
            then call_getPlaintext s3 = Inr (JArrayBuffer P)
            else (\<forall>me. holdsPrivateKey L me \<longrightarrow> intendedRecipient L calls me \<longrightarrow>
                    (\<exists>s4. call_decrypt L s3 me = Inr s4 \<and>
                          call_getPlaintext s4 = Inr (JArrayBuffer P))))"
proof -
  note ws = write_written [OF w]
  from run_calls_written [OF ws(1) r] ws(3)
  have wr1: "written s1"
    and nrecv: "length (receivers s1) = length (filter (\<lambda>c. \<not> isSign c) calls)"
    and cs1: "clearSign s1 = clearSign s0"
    by simp_all
  from run_calls_lists [OF r] ws(2,3,5,6,7,8)
  have lr: "length (receivers s1) = length (decryptors s1)"
    and ls: "length (signers s1) = length (signatures s1)"
    and pt: "plaintextBuf s1 = JArrayBuffer P"
    and mk: "mainKeyBuf s1 = JArrayBuffer (srand_bytes L 64)"
    and zs: "set (zip (receivers s1) (decryptors s1)) \<subseteq>
               {e. wrapsFor L (JArrayBuffer (srand_bytes L 64)) calls e}"
    by simp_all
  let ?pr = "\<lparr>p_signers = signers s1, p_signatures = signatures s1, p_content = P\<rparr>"
  show ?thesis
  proof (cases "clearSign s1")
    case True
    with cs1 have "clearSign s0" by simp
    from clearsign_run_calls [OF ws(1) this r]
    have none: "filter (\<lambda>c. \<not> isSign c) calls = []" .
    from done_clear [OF True d] pt
    have ser: "payload_serialize L (signers s1) (signatures s1) (JArrayBuffer P) = Inr out"
      by simp
    from codec ser have de: "payload_deserialize L out = Inr ?pr"
      and env: "\<exists>e. envelope_deserialize L out = Inl e"
      unfolding message_codec_ok_def by blast+
    from read_plain [OF env de ls] none show ?thesis by simp
  next
    case False
    from done_envelope [OF False d] obtain pb cb eb where
      ser0: "payload_serialize L (signers s1) (signatures s1) (plaintextBuf s1) = Inr pb"
      and cmp: "compress L pb = Inr cb"
      and enc0: "if length (decryptors s1) > 0
                 then sym_encrypt L (mainKeyBuf s1) (JArrayBuffer cb) = Inr eb
                 else eb = cb"
      and es: "envelope_serialize L
                 \<lparr>e_compression = CompLzw, e_receivers = receivers s1,
                  e_decryptors = decryptors s1, e_payload = eb\<rparr> = Inr out"
      by blast
    from ser0 pt
    have ser: "payload_serialize L (signers s1) (signatures s1) (JArrayBuffer P) = Inr pb"
      by simp
    from enc0 mk
    have enc: "if length (decryptors s1) > 0
               then sym_encrypt L (JArrayBuffer (srand_bytes L 64)) (JArrayBuffer cb) = Inr eb
               else eb = cb"
      by (simp split: if_splits)
    from codec ser have de: "payload_deserialize L pb = Inr ?pr"
      unfolding message_codec_ok_def by blast
    from codec cmp have dc: "decompress L cb = Inr pb"
      unfolding message_codec_ok_def by blast
    from codec es have ed: "envelope_deserialize L out =
        Inr \<lparr>e_compression = CompLzw, e_receivers = receivers s1,
             e_decryptors = decryptors s1, e_payload = eb\<rparr>"
      unfolding message_codec_ok_def by blast
    show ?thesis
    proof (cases "receivers s1 = []")
      case True
      with lr have "decryptors s1 = []" by simp
      with enc True ed have ed': "envelope_deserialize L out =
          Inr \<lparr>e_compression = CompLzw, e_receivers = [], e_decryptors = [], e_payload = cb\<rparr>"
        by simp
      from True nrecv have none: "filter (\<lambda>c. \<not> isSign c) calls = []" by simp
      from read_unencrypted_envelope [OF ed' dc de ls] none show ?thesis by simp
    next
      case ne: False
      with nrecv have some: "filter (\<lambda>c. \<not> isSign c) calls \<noteq> []" by auto
      from ne lr have dne: "length (decryptors s1) > 0" by auto
      with enc have se: "sym_encrypt L (JArrayBuffer (srand_bytes L 64)) (JArrayBuffer cb) = Inr eb"
        by simp
      with sym have sd: "sym_decrypt L (JArrayBuffer (srand_bytes L 64)) eb = Inr cb"
        unfolding symmetric_ok_def by blast
      from read_encrypted_envelope [OF ed lr ne] obtain s3 where
        s3: "call_read L new_message (JArrayBuffer out) = Inr s3"
        "receivers s3 = receivers s1" "decryptors s3 = decryptors s1" "payloadBuf s3 = eb"
        "payloadCompression s3 = Some CompLzw" "''decrypt'' \<in> methods s3"
        by blast
      have dec: "\<exists>s4. call_decrypt L s3 me = Inr s4 \<and> call_getPlaintext s4 = Inr (JArrayBuffer P)"
        if hp: "holdsPrivateKey L me" and ir: "intendedRecipient L calls me" for me
      proof -
        from ir obtain rc seed where "Encrypt rc seed \<in> set calls"
          "getFingerprint L rc = getFingerprint L me"
          by (auto simp: intendedRecipient_iff)
        with run_calls_lists [OF r] ws(2,3,6,7)
        have "getFingerprint L me \<in> set (receivers s1)" by (metis list.size(3))
        from lookupFingerprint_found [OF this, of 0] obtain k where
          k: "lookupFingerprint (getFingerprint L me) (receivers s1) 0 = Some k"
          "k < length (receivers s1)" "receivers s1 ! k = getFingerprint L me"
          by auto
        from k(2) lr have kd: "k < length (decryptors s1)" by simp
        from k(2) kd have "(receivers s1 ! k, decryptors s1 ! k) \<in> set (zip (receivers s1) (decryptors s1))"
          by (metis in_set_zip fst_conv snd_conv)
        with zs k(3)
        have "wrapsFor L (JArrayBuffer (srand_bytes L 64)) calls (getFingerprint L me, decryptors s1 ! k)"
          by auto
        from recipient_unwraps [OF asym hp ir this]
        have idd: "identity_decrypt L me (JArrayBuffer (decryptors s1 ! k)) = Inr (srand_bytes L 64)" .
        from hp have ip: "isPrivate me" by (simp add: holdsPrivateKey_def isPrivate_def)
        from decrypt_unpacks [of s3 me L k "srand_bytes L 64" cb pb "signers s1" "signatures s1" P]
          s3 ip k(1) kd idd sd dc de ls
        show ?thesis by simp
      qed
      from s3(1) some dec show ?thesis by auto
    qed
  qed
qed

lemma unpack_readable:
  assumes "readable m" and "continueUnpackPayload L m = Inr s"
  shows "readable s"
  using assms
  by (auto simp: readable_def continueUnpackPayload_def Let_def split: if_splits sum.splits)

lemma readable_delete:
  "readable s \<Longrightarrow> readable (s\<lparr>methods := methods s - X\<rparr>)"
  by (simp add: readable_def)

lemma readable_new: "readable (new_message\<lparr>payloadBuf := b, payloadCompression := c\<rparr>)"
  by (simp add: readable_def new_message_def)

lemma read_readable:
  assumes "call_read L new_message textBuf = Inr s"
  shows "readable s"
proof -
  from assms obtain tb where tb: "textBuf = JArrayBuffer tb"
    by (cases textBuf) (simp_all add: call_read_def message_read_def split: if_splits)
  show ?thesis
  proof (cases "envelope_deserialize L tb")
    case (Inl e)
    let ?m = "new_message\<lparr>payloadBuf := tb, payloadCompression := Some CompFalse\<rparr>"
    from assms tb Inl obtain s2 where
      u: "continueUnpackPayload L ?m = Inr s2"
      and s: "s = s2\<lparr>methods := methods s2 - {''write'', ''read''}\<rparr>"
      by (auto simp: call_read_def message_read_def new_message_def
          split: if_splits sum.splits)
    from unpack_readable [OF readable_new u] s show ?thesis
      by (simp add: readable_delete)
  next
    case (Inr v)
    let ?m = "new_message\<lparr>payloadBuf := e_payload v,
                payloadCompression := Some (e_compression v)\<rparr>"
    show ?thesis
    proof (cases "length (e_receivers v) > 0")
      case True
      with assms tb Inr show ?thesis
        by (auto simp: call_read_def message_read_def new_message_def Let_def readable_def
            split: if_splits)
    next
      case False
      with assms tb Inr obtain s2 where
        u: "continueUnpackPayload L ?m = Inr s2"
        and s: "s = s2\<lparr>methods := methods s2 - {''write'', ''read''}\<rparr>"
        by (auto simp: call_read_def message_read_def new_message_def Let_def
            split: if_splits sum.splits)
      from unpack_readable [OF readable_new u] s show ?thesis
        by (simp add: readable_delete)
    qed
  qed
qed

lemma decrypt_readable:
  assumes "readable s" and "call_decrypt L s withIdentity = Inr s'"
  shows "readable s'"
proof -
  from assms(2) obtain b s2 where
    u: "continueUnpackPayload L (s\<lparr>payloadBuf := b\<rparr>) = Inr s2"
    and s: "s' = s2\<lparr>methods := methods s2 - {''decrypt'', ''getReceivers''}\<rparr>"
    by (auto simp: call_decrypt_def message_decrypt_def
        split: if_splits sum.splits option.splits)
  from assms(1) have "readable (s\<lparr>payloadBuf := b\<rparr>)" by (simp add: readable_def)
  from unpack_readable [OF this u] s show ?thesis by (simp add: readable_delete)
qed

lemma run_decrypts_readable:
  "readable s \<Longrightarrow> run_decrypts L s ids = Inr s' \<Longrightarrow> readable s'"
proof (induction ids arbitrary: s)
  case Nil
  then show ?case by simp
next
  case (Cons i ids)
  then obtain s1 where "call_decrypt L s i = Inr s1" "run_decrypts L s1 ids = Inr s'"
    by (auto split: sum.splits)
  with Cons.IH [of s1] decrypt_readable [OF Cons.prems(1)] show ?case by blast
qed

text \<open>
  C4. On a message on which \<^verbatim>\<open>read\<close>, and then any \<^verbatim>\<open>decrypt\<close> calls, have
  returned and that has the \<^verbatim>\<open>verify\<close> method: when the fingerprint of the identity is not
  in \<open>signers\<close>, \<^verbatim>\<open>verify\<close> throws \<^verbatim>\<open>enigma-invalid-identity-for-verify\<close>;
  when it is, \<^verbatim>\<open>verify\<close> returns a boolean, computed from the signature at the
  index of the first match: true when the cipher's verification returns \<^verbatim>\<open>true\<close>,
  false when it returns anything else or throws.
\<close>

theorem message_verify_result:
  assumes "call_read L new_message textBuf = Inr s0" and "run_decrypts L s0 ids = Inr s"
    and "''verify'' \<in> methods s"
  shows "(getFingerprint L i \<notin> set (signers s) \<longrightarrow>
            call_message_verify L s i = Inl (Error ''enigma-invalid-identity-for-verify'')) \<and>
         (getFingerprint L i \<in> set (signers s) \<longrightarrow>
            (\<exists>k p. lookupFingerprint (getFingerprint L i) (signers s) 0 = Some k \<and>
               k < length (signatures s) \<and> plaintextBuf s = JArrayBuffer p \<and>
               call_message_verify L s i =
                 Inr (asym_verify L (asymCipher i) p (signatures s ! k) = Inr (JBool True))))"
proof -
  from run_decrypts_readable [OF read_readable [OF assms(1)] assms(2)] assms(3)
  have len: "length (signatures s) = length (signers s)"
    and "isArrayBuffer (plaintextBuf s)"
    by (simp_all add: readable_def)
  then obtain p where p: "plaintextBuf s = JArrayBuffer p"
    by (cases "plaintextBuf s") simp_all
  have a: "call_message_verify L s i = Inl (Error ''enigma-invalid-identity-for-verify'')"
    if "getFingerprint L i \<notin> set (signers s)"
    using lookupFingerprint_none [OF that, of 0] assms(3)
    by (simp add: call_message_verify_def message_verify_def)
  have b: "\<exists>k p. lookupFingerprint (getFingerprint L i) (signers s) 0 = Some k \<and>
               k < length (signatures s) \<and> plaintextBuf s = JArrayBuffer p \<and>
               call_message_verify L s i =
                 Inr (asym_verify L (asymCipher i) p (signatures s ! k) = Inr (JBool True))"
    if "getFingerprint L i \<in> set (signers s)"
  proof -
    from lookupFingerprint_found [OF that, of 0] obtain k where
      k: "lookupFingerprint (getFingerprint L i) (signers s) 0 = Some k" "k < length (signers s)"
      by auto
    with len have kl: "k < length (signatures s)" by simp
    have "call_message_verify L s i =
            Inr (asym_verify L (asymCipher i) p (signatures s ! k) = Inr (JBool True))"
      using k(1) kl p assms(3)
      by (auto simp: call_message_verify_def message_verify_def identity_verify_def js_index_def
          split: sum.splits)
    with k(1) kl p show ?thesis by blast
  qed
  from a b show ?thesis by blast
qed

section \<open>The operations on concrete messages\<close>

lemma fp_alice: "getFingerprint ref_lib alice = [8, 8, 8, 8, 97, 108, 105, 99, 101, 32]"
  by (simp add: getFingerprint_def getID_def ref_lib_def alice_def slice2_def)

lemma fp_bob: "getFingerprint ref_lib bob = [2, 3, 4, 5, 98, 111, 98, 32, 32, 32]"
  by (simp add: getFingerprint_def getID_def ref_lib_def bob_def slice2_def)

lemma ref_sign_returns:
  assumes "prv i" and "c_secret (asymCipher i) = Some sec"
  shows "identity_sign ref_lib i seed (JArrayBuffer p) =
           Inr (enc_bytes (c_public (asymCipher i)) @ p)"
  using assms by (simp add: identity_sign_def ref_lib_def ref_asym_sign_def)

lemma ref_encrypt_returns:
  "identity_encrypt ref_lib i seed (JArrayBuffer k) =
     Inr (of_nat seed # enc_bytes (c_public (asymCipher i)) @ k)"
  by (simp add: identity_encrypt_def ref_lib_def ref_asym_encrypt_def)

lemma do_call_keeps:
  assumes "do_call L s c = Inr s'"
  shows "plaintextBuf s' = plaintextBuf s" and "mainKeyBuf s' = mainKeyBuf s"
  using assms
  by (cases c;
      auto simp: call_sign_def message_sign_def call_encrypt_def message_encrypt_def Let_def
        split: if_splits sum.splits)+

lemma ref_run_calls_return:
  assumes "written s" and "isArrayBuffer (plaintextBuf s)" and "isArrayBuffer (mainKeyBuf s)"
    and "\<not> clearSign s"
    and "\<forall>c\<in>set cs. c = Sign alice 0 \<or> c = Encrypt bob 0"
    and "length (signers s) + length (filter isSign cs) \<le> 255"
    and "length (receivers s) + length (filter (\<lambda>c. \<not> isSign c) cs) \<le> 255"
  shows "\<exists>s'. run_calls ref_lib s cs = Inr s'"
  using assms
proof (induction cs arbitrary: s)
  case Nil
  then show ?case by simp
next
  case (Cons c cs)
  obtain p k where p: "plaintextBuf s = JArrayBuffer p" and k: "mainKeyBuf s = JArrayBuffer k"
    using Cons.prems(2,3) by (cases "plaintextBuf s"; cases "mainKeyBuf s"; simp)
  from Cons.prems(5) have c: "c = Sign alice 0 \<or> c = Encrypt bob 0" by simp
  have "\<exists>s1. do_call ref_lib s c = Inr s1"
  proof (cases "c = Sign alice 0")
    case True
    with Cons.prems(6) have "length (signers s) < 255" by simp
    with Cons.prems(1) have "''sign'' \<in> methods s" by (simp add: written_def)
    with True p show ?thesis
      using ref_sign_returns [of alice "[7, 7, 7, 7]" 0 p]
      by (simp add: call_sign_def message_sign_def isPrivate_def alice_def Let_def)
  next
    case False
    with c have e: "c = Encrypt bob 0" by simp
    with Cons.prems(7) have "length (receivers s) < 255" by simp
    with Cons.prems(1,4) have "''encrypt'' \<in> methods s" by (simp add: written_def)
    with e k show ?thesis
      by (simp add: call_encrypt_def message_encrypt_def ref_encrypt_returns Let_def)
  qed
  then obtain s1 where s1: "do_call ref_lib s c = Inr s1" by blast
  note st = do_call_step [OF Cons.prems(1) s1]
  note ks = do_call_keeps [OF s1]
  have "\<exists>s'. run_calls ref_lib s1 cs = Inr s'"
  proof (rule Cons.IH [OF st(1)])
    show "isArrayBuffer (plaintextBuf s1)" using ks(1) Cons.prems(2) by simp
    show "isArrayBuffer (mainKeyBuf s1)" using ks(2) Cons.prems(3) by simp
    show "\<not> clearSign s1" using st(4) Cons.prems(4) by simp
    show "\<forall>c\<in>set cs. c = Sign alice 0 \<or> c = Encrypt bob 0" using Cons.prems(5) by simp
    show "length (signers s1) + length (filter isSign cs) \<le> 255"
      using st(2) Cons.prems(6) by (cases "isSign c") simp_all
    show "length (receivers s1) + length (filter (\<lambda>c. \<not> isSign c) cs) \<le> 255"
      using st(3) Cons.prems(7) by (cases "isSign c") simp_all
  qed
  with s1 show ?case by simp
qed

lemma ref_write:
  "\<exists>s0. call_write ref_lib new_message (JArrayBuffer p) cs = Inr s0"
  by (simp add: call_write_def message_write_def new_message_def Let_def)

theorem sign_and_encrypt_stop_at_255_witness:
  "\<exists>s0 s. call_write ref_lib new_message (JArrayBuffer [1, 2, 3]) JUndefined = Inr s0 \<and>
     run_calls ref_lib s0 (replicate 255 (Sign alice 0) @ replicate 255 (Encrypt bob 0)) = Inr s \<and>
     length (signers s) = 255 \<and> length (receivers s) = 255 \<and>
     call_sign ref_lib s alice 0 = Inl (TypeError ''sign'') \<and>
     call_encrypt ref_lib s bob 0 = Inl (TypeError ''encrypt'')"
proof -
  let ?calls = "replicate 255 (Sign alice 0) @ replicate 255 (Encrypt bob 0)"
  obtain s0 where w: "call_write ref_lib new_message (JArrayBuffer [1, 2, 3]) JUndefined = Inr s0"
    using ref_write by blast
  note ws = write_written [OF w]
  have ns: "length (filter isSign ?calls) = 255"
    and ne: "length (filter (\<lambda>c. \<not> isSign c) ?calls) = 255"
    by simp_all
  have "\<exists>s. run_calls ref_lib s0 ?calls = Inr s"
  proof (rule ref_run_calls_return [OF ws(1)])
    show "isArrayBuffer (plaintextBuf s0)" using ws(5) by simp
    show "isArrayBuffer (mainKeyBuf s0)" using ws(8) by simp
    show "\<not> clearSign s0" using ws(4) by simp
    show "\<forall>c\<in>set ?calls. c = Sign alice 0 \<or> c = Encrypt bob 0" by auto
    show "length (signers s0) + length (filter isSign ?calls) \<le> 255"
      unfolding ns using ws(2) by simp
    show "length (receivers s0) + length (filter (\<lambda>c. \<not> isSign c) ?calls) \<le> 255"
      unfolding ne using ws(3) by simp
  qed
  then obtain s where r: "run_calls ref_lib s0 ?calls = Inr s" by blast
  from sign_and_encrypt_stop_at_255 [OF w r, of alice 0] ns ne
  have "length (signers s) = 255" "length (receivers s) = 255"
    "call_sign ref_lib s alice 0 = Inl (TypeError ''sign'')"
    by simp_all
  moreover from sign_and_encrypt_stop_at_255 [OF w r, of bob 0] ne
  have "call_encrypt ref_lib s bob 0 = Inl (TypeError ''encrypt'')" by simp
  ultimately show ?thesis using w r by blast
qed

theorem done_available_after_first_sign_or_encrypt_witness:
  "(\<exists>s0 s. call_write ref_lib new_message (JArrayBuffer [1, 2, 3]) JUndefined = Inr s0 \<and>
      attempt_calls ref_lib s0 [Sign bob_public 0, Encrypt bob 0] = (s, 1) \<and>
      ''done'' \<in> methods s) \<and>
   (\<exists>s0 s. call_write ref_lib new_message (JArrayBuffer [1, 2, 3]) (JBool True) = Inr s0 \<and>
      attempt_calls ref_lib s0 [Encrypt bob 0, Encrypt alice 1] = (s, 0) \<and>
      call_done ref_lib s = (Inl (TypeError ''done''), s))"
proof -
  obtain s0 where w: "call_write ref_lib new_message (JArrayBuffer [1, 2, 3]) JUndefined = Inr s0"
    using ref_write by blast
  note ws = write_written [OF w]
  have m: "''sign'' \<in> methods s0" "''encrypt'' \<in> methods s0"
    using ws(1,2,3,4) by (simp_all add: written_def)
  have f: "do_call ref_lib s0 (Sign bob_public 0) = Inl (Error ''enigma-invalid-identity-for-sign'')"
    using m by (simp add: call_sign_def message_sign_def isPrivate_def bob_public_def)
  have "\<exists>s1. do_call ref_lib s0 (Encrypt bob 0) = Inr s1"
    using m ws(8) by (simp add: call_encrypt_def message_encrypt_def ref_encrypt_returns Let_def)
  then obtain s1 where e: "do_call ref_lib s0 (Encrypt bob 0) = Inr s1" by blast
  have a: "attempt_calls ref_lib s0 [Sign bob_public 0, Encrypt bob 0] = (s1, 1)"
    using f e by simp
  from done_available_after_first_sign_or_encrypt [OF w a]
  have d: "''done'' \<in> methods s1" by simp
  obtain t0 where w': "call_write ref_lib new_message (JArrayBuffer [1, 2, 3]) (JBool True) = Inr t0"
    using ref_write by blast
  obtain t n where a': "attempt_calls ref_lib t0 [Encrypt bob 0, Encrypt alice 1] = (t, n)"
    by force
  from done_available_after_first_sign_or_encrypt [OF w' a']
  have "n = 0 \<and> call_done ref_lib t = (Inl (TypeError ''done''), t)" by simp
  with w a d w' a' show ?thesis by blast
qed

lemma ref_done_returns:
  assumes "''done'' \<in> methods s" and "isArrayBuffer (plaintextBuf s)"
    and "isArrayBuffer (mainKeyBuf s)"
  shows "\<exists>out s2. call_done ref_lib s = (Inr out, s2)"
proof -
  obtain p k where "plaintextBuf s = JArrayBuffer p" "mainKeyBuf s = JArrayBuffer k"
    using assms(2,3) by (cases "plaintextBuf s"; cases "mainKeyBuf s"; simp)
  with assms(1) show ?thesis
    by (simp add: call_done_def message_done_def ref_lib_def ref_payload_serialize_def
        ref_compress_def ref_sym_encrypt_def ref_envelope_serialize_def Let_def)
qed

lemma holdsPrivateKey_bob: "holdsPrivateKey ref_lib bob"
  by (simp add: holdsPrivateKey_def bob_def ref_lib_def ref_publicOfSecret_def)

theorem message_round_trip_witness:
  "(\<exists>s0 s1 out s2 s3 s4.
      call_write ref_lib new_message (JArrayBuffer [1, 2, 3]) JUndefined = Inr s0 \<and>
      run_calls ref_lib s0 [Sign alice 0, Encrypt bob 0] = Inr s1 \<and>
      call_done ref_lib s1 = (Inr out, s2) \<and>
      call_read ref_lib new_message (JArrayBuffer out) = Inr s3 \<and>
      call_decrypt ref_lib s3 bob = Inr s4 \<and>
      call_getPlaintext s4 = Inr (JArrayBuffer [1, 2, 3])) \<and>
   (\<exists>s0 s1 out s2 s3.
      call_write ref_lib new_message (JArrayBuffer [1, 2, 3]) JUndefined = Inr s0 \<and>
      run_calls ref_lib s0 [Sign alice 0] = Inr s1 \<and>
      call_done ref_lib s1 = (Inr out, s2) \<and>
      call_read ref_lib new_message (JArrayBuffer out) = Inr s3 \<and>
      call_getPlaintext s3 = Inr (JArrayBuffer [1, 2, 3]))"
proof -
  obtain s0 where w: "call_write ref_lib new_message (JArrayBuffer [1, 2, 3]) JUndefined = Inr s0"
    using ref_write by blast
  note ws = write_written [OF w]
  have runs: "\<exists>s1 out s2. run_calls ref_lib s0 cs = Inr s1 \<and> call_done ref_lib s1 = (Inr out, s2)"
    if cs: "\<forall>c\<in>set cs. c = Sign alice 0 \<or> c = Encrypt bob 0" "cs \<noteq> []" "length cs \<le> 2"
    for cs
  proof -
    have l1: "length (filter isSign cs) \<le> 2"
      using le_trans [OF length_filter_le cs(3), of isSign] .
    have l2: "length (filter (\<lambda>c. \<not> isSign c) cs) \<le> 2"
      using le_trans [OF length_filter_le cs(3), of "\<lambda>c. \<not> isSign c"] .
    have "\<exists>s1. run_calls ref_lib s0 cs = Inr s1"
    proof (rule ref_run_calls_return [OF ws(1)])
      show "isArrayBuffer (plaintextBuf s0)" using ws(5) by simp
      show "isArrayBuffer (mainKeyBuf s0)" using ws(8) by simp
      show "\<not> clearSign s0" using ws(4) by simp
      show "\<forall>c\<in>set cs. c = Sign alice 0 \<or> c = Encrypt bob 0" by (rule cs(1))
      show "length (signers s0) + length (filter isSign cs) \<le> 255"
        using ws(2) l1 by simp
      show "length (receivers s0) + length (filter (\<lambda>c. \<not> isSign c) cs) \<le> 255"
        using ws(3) l2 by simp
    qed
    then obtain s1 where r: "run_calls ref_lib s0 cs = Inr s1" by blast
    from run_calls_written [OF ws(1) r] ws(2,3)
    have wr: "written s1"
      and n: "length (signers s1) + length (receivers s1) =
              length (filter isSign cs) + length (filter (\<lambda>c. \<not> isSign c) cs)"
      by simp_all
    have "length (filter isSign cs) + length (filter (\<lambda>c. \<not> isSign c) cs) = length cs"
      by (rule sum_length_filter_compl)
    with n cs(2) have "signers s1 \<noteq> [] \<or> receivers s1 \<noteq> []" by auto
    with wr have dn: "''done'' \<in> methods s1" by (simp add: written_def)
    from run_calls_lists [OF r] ws(2,3,5,6,7,8)
    have "isArrayBuffer (plaintextBuf s1)" "isArrayBuffer (mainKeyBuf s1)" by simp_all
    from ref_done_returns [OF dn this] r show ?thesis by blast
  qed
  from runs [of "[Sign alice 0, Encrypt bob 0]"] obtain s1 out s2 where
    r: "run_calls ref_lib s0 [Sign alice 0, Encrypt bob 0] = Inr s1"
    and d: "call_done ref_lib s1 = (Inr out, s2)"
    by auto
  have ir: "intendedRecipient ref_lib [Sign alice 0, Encrypt bob 0] bob"
    by (simp add: intendedRecipient_def)
  from message_round_trip [OF ref_message_codec_ok ref_symmetric_ok ref_asymmetric_ok w r d]
    holdsPrivateKey_bob ir
  obtain s3 s4 where
    "call_read ref_lib new_message (JArrayBuffer out) = Inr s3"
    "call_decrypt ref_lib s3 bob = Inr s4"
    "call_getPlaintext s4 = Inr (JArrayBuffer [1, 2, 3])"
    by auto
  with w r d have first: "\<exists>s0 s1 out s2 s3 s4.
      call_write ref_lib new_message (JArrayBuffer [1, 2, 3]) JUndefined = Inr s0 \<and>
      run_calls ref_lib s0 [Sign alice 0, Encrypt bob 0] = Inr s1 \<and>
      call_done ref_lib s1 = (Inr out, s2) \<and>
      call_read ref_lib new_message (JArrayBuffer out) = Inr s3 \<and>
      call_decrypt ref_lib s3 bob = Inr s4 \<and>
      call_getPlaintext s4 = Inr (JArrayBuffer [1, 2, 3])"
    by blast
  from runs [of "[Sign alice 0]"] obtain t1 out' t2 where
    r': "run_calls ref_lib s0 [Sign alice 0] = Inr t1"
    and d': "call_done ref_lib t1 = (Inr out', t2)"
    by auto
  from message_round_trip [OF ref_message_codec_ok ref_symmetric_ok ref_asymmetric_ok w r' d']
  obtain t3 where
    "call_read ref_lib new_message (JArrayBuffer out') = Inr t3"
    "call_getPlaintext t3 = Inr (JArrayBuffer [1, 2, 3])"
    by auto
  with w r' d' have second: "\<exists>s0 s1 out s2 s3.
      call_write ref_lib new_message (JArrayBuffer [1, 2, 3]) JUndefined = Inr s0 \<and>
      run_calls ref_lib s0 [Sign alice 0] = Inr s1 \<and>
      call_done ref_lib s1 = (Inr out, s2) \<and>
      call_read ref_lib new_message (JArrayBuffer out) = Inr s3 \<and>
      call_getPlaintext s3 = Inr (JArrayBuffer [1, 2, 3])"
    by blast
  from first second show ?thesis by blast
qed

lemma read_clearsigned_by_alice:
  "\<exists>s. call_read ref_lib new_message (JArrayBuffer clearsigned_by_alice) = Inr s \<and>
       signers s = [[8, 8, 8, 8, 97, 108, 105, 99, 101, 32]] \<and> signatures s = [[0]] \<and>
       plaintextBuf s = JArrayBuffer [1, 2, 3] \<and> ''verify'' \<in> methods s"
proof -
  have ser: "ref_payload_serialize [[8, 8, 8, 8, 97, 108, 105, 99, 101, 32]] [[0]]
               (JArrayBuffer [1, 2, 3]) = Inr clearsigned_by_alice"
    by (simp add: ref_payload_serialize_def clearsigned_by_alice_def)
  from ref_tags_distinct [OF ser] obtain e where
    e: "envelope_deserialize ref_lib clearsigned_by_alice = Inl e"
    by (auto simp: ref_lib_def)
  from ref_payload_roundtrip [OF ser]
  have p: "payload_deserialize ref_lib clearsigned_by_alice =
             Inr \<lparr>p_signers = [[8, 8, 8, 8, 97, 108, 105, 99, 101, 32]],
                  p_signatures = [[0]], p_content = [1, 2, 3]\<rparr>"
    by (simp add: ref_lib_def)
  show ?thesis
    by (simp add: call_read_def message_read_def e continueUnpackPayload_def p Let_def
        new_message_def)
qed

theorem message_verify_result_witness:
  "\<exists>s. call_read ref_lib new_message (JArrayBuffer clearsigned_by_alice) = Inr s \<and>
       ''verify'' \<in> methods s \<and>
       call_message_verify ref_lib s alice = Inr False \<and>
       call_message_verify ref_lib s bob = Inl (Error ''enigma-invalid-identity-for-verify'')"
proof -
  from read_clearsigned_by_alice obtain s where
    s: "call_read ref_lib new_message (JArrayBuffer clearsigned_by_alice) = Inr s"
    "signers s = [[8, 8, 8, 8, 97, 108, 105, 99, 101, 32]]" "signatures s = [[0]]"
    "plaintextBuf s = JArrayBuffer [1, 2, 3]" "''verify'' \<in> methods s"
    by blast
  have rd: "run_decrypts ref_lib s [] = Inr s" by simp
  have "asym_verify ref_lib (asymCipher alice) [1, 2, 3] [0] \<noteq> Inr (JBool True)"
    by (simp add: ref_lib_def ref_asym_verify_def)
  with message_verify_result [OF s(1) rd s(5), of alice] s(2,3,4) fp_alice
  have a: "call_message_verify ref_lib s alice = Inr False" by auto
  from message_verify_result [OF s(1) rd s(5), of bob] s(2) fp_bob
  have b: "call_message_verify ref_lib s bob = Inl (Error ''enigma-invalid-identity-for-verify'')"
    by simp
  from s(1,5) a b show ?thesis by blast
qed

end
